theory Spec2Isabelle
  imports Complex_Main "HOL-Library.Word" "HOL-Library.Multiset"
begin

section \<open>JavaScript strings\<close>

text \<open>
  A JavaScript string is a sequence of UTF-16 code units. The regular expressions of the
  repair script carry no \<open>u\<close> flag, so they too work on code units.
\<close>

type_synonym jsstring = "16 word list"

definition ascii :: "string \<Rightarrow> jsstring" where
  "ascii s = map of_char s"

definition TAB :: "16 word" where "TAB = 0x09"
definition NL :: "16 word" where "NL = 0x0A"
definition SPACE :: "16 word" where "SPACE = 0x20"

text \<open>
  \<open>String.prototype.trim\<close> removes the code points of WhiteSpace and LineTerminator
  (ECMAScript, 22.1.3.32) from both ends.
\<close>

definition is_js_whitespace :: "16 word \<Rightarrow> bool" where
  "is_js_whitespace c \<longleftrightarrow>
     c = 0x09 \<or> c = 0x0A \<or> c = 0x0B \<or> c = 0x0C \<or> c = 0x0D \<or> c = 0x20 \<or> c = 0xA0 \<or>
     c = 0x1680 \<or> (0x2000 \<le> c \<and> c \<le> 0x200A) \<or> c = 0x2028 \<or> c = 0x2029 \<or>
     c = 0x202F \<or> c = 0x205F \<or> c = 0x3000 \<or> c = 0xFEFF"

definition trim :: "jsstring \<Rightarrow> jsstring" where
  "trim s = rev (dropWhile is_js_whitespace (rev (dropWhile is_js_whitespace s)))"

definition startsWith :: "jsstring \<Rightarrow> jsstring \<Rightarrow> bool" where
  "startsWith s p \<longleftrightarrow> take (length p) s = p"

text \<open>\<open>s.split(c)\<close> for a one-character separator: always at least one field.\<close>

fun split_on :: "'a \<Rightarrow> 'a list \<Rightarrow> 'a list list" where
  "split_on c [] = [[]]"
| "split_on c (x # xs) =
     (if x = c then [] # split_on c xs
      else (case split_on c xs of f # fs \<Rightarrow> (x # f) # fs | [] \<Rightarrow> [[x]]))"

text \<open>\<open>xs.join(sep)\<close>.\<close>

fun join :: "'a list \<Rightarrow> 'a list list \<Rightarrow> 'a list" where
  "join sep [] = []"
| "join sep [x] = x"
| "join sep (x # y # ys) = x @ sep @ join sep (y # ys)"

section \<open>The repair script (clean-encoding.ts)\<close>

subsection \<open>Global regular-expression replacements\<close>

text \<open>\<open>s.replace(/p/g, "")\<close> for a literal pattern \<open>p\<close>: occurrences are removed from left
  to right, without overlap.\<close>

fun remove_all :: "'a list \<Rightarrow> 'a list \<Rightarrow> 'a list" where
  "remove_all p [] = []"
| "remove_all p (x # xs) =
     (if p \<noteq> [] \<and> take (length p) (x # xs) = p
      then remove_all p (drop (length p - 1) xs)
      else x # remove_all p xs)"

text \<open>\<open>s.replace(/c+/g, r)\<close>: every maximal run of \<open>c\<close> becomes the single unit \<open>r\<close>.\<close>

function replace_runs :: "'a \<Rightarrow> 'a \<Rightarrow> 'a list \<Rightarrow> 'a list" where
  "replace_runs c r [] = []"
| "replace_runs c r (x # xs) =
     (if x = c then r # replace_runs c r (dropWhile (\<lambda>y. y = c) xs)
      else x # replace_runs c r xs)"
  by pat_completeness auto
termination
  by (relation "measure (\<lambda>(c, r, xs). length xs)")
     (auto simp: le_imp_less_Suc length_dropWhile_le)

text \<open>The character class \<open>[^\x20-\x7E\t\n\u0080-\uFFFF]\<close>, negated: what is kept.\<close>

definition printable :: "16 word \<Rightarrow> bool" where
  "printable c \<longleftrightarrow>
     (0x20 \<le> c \<and> c \<le> 0x7E) \<or> c = 0x09 \<or> c = 0x0A \<or> (0x80 \<le> c \<and> c \<le> 0xFFFF)"

text \<open>
  The pattern of the first replacement, as the script's source text has it: the three
  code units U+00D4 U+00F8 U+03A9. The replacement of the bullet U+2022 is the three
  units U+201A U+00C4 U+00A2.
\<close>

definition replacement_pattern :: jsstring where
  "replacement_pattern = [0xD4, 0xF8, 0x3A9]"

definition bullet_replacement :: jsstring where
  "bullet_replacement = [0x201A, 0xC4, 0xA2]"

definition cleanFieldContent :: "jsstring \<Rightarrow> jsstring" where
  "cleanFieldContent text =
     (let t1 = remove_all replacement_pattern text;
          t2 = map (\<lambda>c. if c = 0x201C \<or> c = 0x201D then 0x22 else c) t1;
          t3 = map (\<lambda>c. if c = 0x2018 \<or> c = 0x2019 then 0x27 else c) t2;
          t4 = map (\<lambda>c. if c = 0x2013 \<or> c = 0x2014 then 0x2D else c) t3;
          t5 = concat (map (\<lambda>c. if c = 0x2022 then bullet_replacement else [c]) t4);
          t6 = map (\<lambda>c. if c = 0xA0 then SPACE else c) t5;
          t7 = filter printable t6;
          t8 = replace_runs NL SPACE t7;
          t9 = replace_runs SPACE SPACE t8
      in trim t9)"

subsection \<open>Merging broken rows\<close>

record repair_state =
  repairedRows :: "jsstring list"
  currentRow :: jsstring
  rowsMerged :: nat

text \<open>The header is the first line that starts with \<open>document_title\<close>, line 0 if none does.\<close>

fun find_header :: "jsstring list \<Rightarrow> nat \<Rightarrow> nat" where
  "find_header [] i = 0"
| "find_header (l # ls) i =
     (if startsWith l (ascii ''document_title'') then i else find_header ls (Suc i))"

definition headerIndex :: "jsstring list \<Rightarrow> nat" where
  "headerIndex lines = find_header lines 0"

text \<open>One iteration of the loop over the lines after the header.\<close>

definition repair_step :: "nat \<Rightarrow> repair_state \<Rightarrow> jsstring \<Rightarrow> repair_state" where
  "repair_step expectedFields st raw =
     (let line = trim raw in
      if line = [] then st
      else
        let fields = split_on TAB line in
        if currentRow st \<noteq> [] \<and> length fields < expectedFields
        then st\<lparr>currentRow := currentRow st @ [SPACE] @ line,
                rowsMerged := rowsMerged st + 1\<rparr>
        else st\<lparr>repairedRows :=
                  (if currentRow st \<noteq> [] then repairedRows st @ [currentRow st]
                   else repairedRows st),
                currentRow := line\<rparr>)"

definition repair_rows :: "nat \<Rightarrow> jsstring list \<Rightarrow> repair_state" where
  "repair_rows expectedFields ls =
     (let st = foldl (repair_step expectedFields)
                 \<lparr>repairedRows = [], currentRow = [], rowsMerged = 0\<rparr> ls
      in if currentRow st \<noteq> []
         then st\<lparr>repairedRows := repairedRows st @ [currentRow st]\<rparr>
         else st)"

text \<open>Step 2: every field of every repaired row is cleaned, and the row is put together again.\<close>

definition clean_row :: "jsstring \<Rightarrow> jsstring" where
  "clean_row row = join [TAB] (map cleanFieldContent (split_on TAB row))"

record repair_output =
  outputContent :: jsstring
  merged :: nat
  encodingIssuesFixed :: nat
  totalDataRows :: nat

text \<open>
  \<open>main\<close>, from the content of the input file to the content of the output file and the
  counts it prints. \<open>content.split("\n")\<close> is never empty, so the header line exists.
\<close>

definition clean_encoding :: "jsstring \<Rightarrow> repair_output" where
  "clean_encoding content =
     (let lines = split_on NL content;
          hi = headerIndex lines;
          header = lines ! hi;
          expectedFields = length (split_on TAB header);
          st = repair_rows expectedFields (drop (Suc hi) lines);
          cleanedRows = map clean_row (repairedRows st)
      in \<lparr>outputContent = join [NL] (header # cleanedRows),
          merged = rowsMerged st,
          encodingIssuesFixed =
            length (filter (\<lambda>row. clean_row row \<noteq> row) (repairedRows st)),
          totalDataRows = length cleanedRows\<rparr>)"

section \<open>The TSV parser (parseTSV)\<close>

text \<open>
  \<open>JSON.parse\<close> belongs to the language, not to the repository: it is a parameter
  \<open>jparse\<close> of the parser, \<open>None\<close> standing for a thrown \<open>SyntaxError\<close>. Its result is a
  JSON value; only arrays answer \<open>Array.isArray\<close> with true.
\<close>

datatype json =
  JNull | JBool bool | JNumber real | JString jsstring
  | JArray "json list" | JObject "(jsstring \<times> json) list"

record tsv_row =
  documentTitle :: jsstring
  sourceUrl :: jsstring
  sectionTitle :: jsstring
  chunkContent :: jsstring
  embedding :: "json list"

text \<open>
  The two errors the parser throws: \<open>Invalid TSV row: missing required fields in "line"\<close>
  and \<open>Invalid embedding format in row for "documentTitle": error\<close>, the inner error being
  the \<open>SyntaxError\<close> of \<open>JSON.parse\<close> or \<open>Embedding must be an array of 1536 numbers\<close>.
\<close>

datatype embedding_problem = JSONSyntaxError | NotAnArrayOf1536

datatype parse_error =
  MissingRequiredFields jsstring
  | InvalidEmbeddingFormat jsstring embedding_problem

text \<open>Array destructuring: a position past the end is \<open>undefined\<close>.\<close>

definition field :: "jsstring list \<Rightarrow> nat \<Rightarrow> jsstring option" where
  "field fs i = (if i < length fs then Some (fs ! i) else None)"

definition parse_row :: "(jsstring \<Rightarrow> json option) \<Rightarrow> jsstring \<Rightarrow> parse_error + tsv_row" where
  "parse_row jparse line =
     (let fs = split_on TAB line in
      case (field fs 0, field fs 3, field fs 4) of
        (Some title, Some content, Some embeddingStr) \<Rightarrow>
          if title = [] \<or> content = [] \<or> embeddingStr = []
          then Inl (MissingRequiredFields line)
          else (case jparse embeddingStr of
                  None \<Rightarrow> Inl (InvalidEmbeddingFormat title JSONSyntaxError)
                | Some (JArray xs) \<Rightarrow>
                    if length xs \<noteq> 1536
                    then Inl (InvalidEmbeddingFormat title NotAnArrayOf1536)
                    else Inr \<lparr>documentTitle = trim title,
                              sourceUrl = (case field fs 1 of None \<Rightarrow> [] | Some u \<Rightarrow> trim u),
                              sectionTitle = (case field fs 2 of None \<Rightarrow> [] | Some t \<Rightarrow> trim t),
                              chunkContent = trim content,
                              embedding = xs\<rparr>
                | Some _ \<Rightarrow> Inl (InvalidEmbeddingFormat title NotAnArrayOf1536))
      | _ \<Rightarrow> Inl (MissingRequiredFields line))"

text \<open>\<open>dataLines.map\<close>: the first row that throws ends the whole parse.\<close>

fun parse_rows :: "(jsstring \<Rightarrow> json option) \<Rightarrow> jsstring list \<Rightarrow> parse_error + tsv_row list" where
  "parse_rows jparse [] = Inr []"
| "parse_rows jparse (l # ls) =
     (case parse_row jparse l of
        Inl e \<Rightarrow> Inl e
      | Inr r \<Rightarrow> (case parse_rows jparse ls of Inl e \<Rightarrow> Inl e | Inr rs \<Rightarrow> Inr (r # rs)))"

definition dataLines :: "jsstring \<Rightarrow> jsstring list" where
  "dataLines content =
     (let lines = filter (\<lambda>line. trim line \<noteq> []) (split_on NL content)
      in filter (\<lambda>line. \<not> startsWith line (ascii ''#'')
                        \<and> \<not> startsWith line (ascii ''document_title'')) lines)"

definition parseTSV :: "(jsstring \<Rightarrow> json option) \<Rightarrow> jsstring \<Rightarrow> parse_error + tsv_row list" where
  "parseTSV jparse content = parse_rows jparse (dataLines content)"

section \<open>The embedding adapter (generate-embeddings.ts)\<close>




section \<open>The store (schema.ts)\<close>

text \<open>
  Two tables. Ids are generated by the database (\<open>gen_random_uuid()\<close>); the model draws
  them from a counter kept with the tables, which makes every new id fresh. The embedding
  column is a type parameter: neither ingestion nor search looks inside a stored vector,
  search hands it to the distance operator.
\<close>

record document =
  d_id :: nat
  d_title :: jsstring
  d_sourceUrl :: "jsstring option"

record 'e text_chunk =
  c_id :: nat
  c_documentId :: nat
  c_sectionTitle :: "jsstring option"
  c_content :: jsstring
  c_embedding :: 'e

record 'e database =
  documents :: "document list"
  textChunks :: "'e text_chunk list"
  next_uuid :: nat

definition empty_database :: "'e database" where
  "empty_database = \<lparr>documents = [], textChunks = [], next_uuid = 0\<rparr>"

section \<open>Similarity search (vector-search.ts)\<close>

record SearchResult =
  r_id :: nat
  r_content :: jsstring
  r_sectionTitle :: "jsstring option"
  r_similarity :: real
  r_documentId :: nat
  r_documentTitle :: jsstring
  r_sourceUrl :: "jsstring option"

datatype search_error = InvalidEmbeddingDimensions nat

text \<open>\<open>FROM text_chunks INNER JOIN documents ON text_chunks.document_id = documents.id\<close>.\<close>

definition innerJoin :: "'e text_chunk list \<Rightarrow> document list \<Rightarrow> ('e text_chunk \<times> document) list" where
  "innerJoin cs ds = concat (map (\<lambda>c. map (Pair c) (filter (\<lambda>d. c_documentId c = d_id d) ds)) cs)"

text \<open>
  The query. \<open>distance\<close> is pgvector's cosine-distance operator \<open><=>\<close>, a parameter read as a
  real number; \<open>WHERE\<close> is \<open>filter\<close>, \<open>ORDER BY ... ASC\<close> a sort on the distance (ties in
  table order), \<open>LIMIT\<close> is \<open>take\<close>.
\<close>

definition searchSimilarChunks ::
  "('e \<Rightarrow> real list \<Rightarrow> real) \<Rightarrow> 'e database \<Rightarrow> real list \<Rightarrow> nat \<Rightarrow> real
     \<Rightarrow> search_error + SearchResult list" where
  "searchSimilarChunks distance db queryEmbedding limit similarityThreshold =
     (if length queryEmbedding \<noteq> 1536
      then Inl (InvalidEmbeddingDimensions (length queryEmbedding))
      else
        let joined = innerJoin (textChunks db) (documents db);
            kept = filter (\<lambda>(c, d). 1 - distance (c_embedding c) queryEmbedding
                                      \<ge> similarityThreshold) joined;
            ordered = sort_key (\<lambda>(c, d). distance (c_embedding c) queryEmbedding) kept;
            results = take limit ordered
        in Inr (map (\<lambda>(c, d).
                  \<lparr>r_id = c_id c,
                   r_content = c_content c,
                   r_sectionTitle = c_sectionTitle c,
                   r_similarity = 1 - distance (c_embedding c) queryEmbedding,
                   r_documentId = c_documentId c,
                   r_documentTitle = d_title d,
                   r_sourceUrl = d_sourceUrl d\<rparr>) results))"

text \<open>The defaults of the signature: \<open>limit = 5\<close>, \<open>similarityThreshold = 0.7\<close>.\<close>

definition searchSimilarChunks_default ::
  "('e \<Rightarrow> real list \<Rightarrow> real) \<Rightarrow> 'e database \<Rightarrow> real list \<Rightarrow> search_error + SearchResult list" where
  "searchSimilarChunks_default distance db queryEmbedding =
     searchSimilarChunks distance db queryEmbedding 5 (7 / 10)"

section \<open>Ingestion (importChunksFromTSV)\<close>

text \<open>
  \<open>documentGroups\<close> is a \<open>Map\<close> from the key \<open>title|sourceUrl\<close> to the rows bearing it; a
  \<open>Map\<close> iterates in the order its keys were first set, so it is an association list.
\<close>

definition BAR :: "16 word" where "BAR = 0x7C"

definition row_key :: "tsv_row \<Rightarrow> jsstring" where
  "row_key row = documentTitle row @ [BAR] @ sourceUrl row"

fun push_row :: "jsstring \<Rightarrow> tsv_row \<Rightarrow> (jsstring \<times> tsv_row list) list
    \<Rightarrow> (jsstring \<times> tsv_row list) list" where
  "push_row k row [] = [(k, [row])]"
| "push_row k row ((k', rs) # groups) =
     (if k' = k then (k', rs @ [row]) # groups else (k', rs) # push_row k row groups)"

definition documentGroups :: "tsv_row list \<Rightarrow> (jsstring \<times> tsv_row list) list" where
  "documentGroups rows = foldl (\<lambda>groups row. push_row (row_key row) row groups) [] rows"

record import_state =
  db :: "json list database"
  documentsCreated :: nat
  chunksCreated :: nat
  chunksSkipped :: nat

text \<open>
  The document lookup: the title is equal and, for a non-empty source URL, the stored URL is
  equal to it; for an empty one the stored URL \<open>IS NULL\<close>.
\<close>

definition existingDocs :: "json list database \<Rightarrow> tsv_row \<Rightarrow> document list" where
  "existingDocs s firstChunk =
     filter (\<lambda>d. d_title d = documentTitle firstChunk \<and>
                 (if sourceUrl firstChunk \<noteq> []
                  then d_sourceUrl d = Some (sourceUrl firstChunk)
                  else d_sourceUrl d = None))
       (documents s)"

definition insert_document :: "json list database \<Rightarrow> tsv_row \<Rightarrow> json list database" where
  "insert_document s firstChunk =
     s\<lparr>documents := documents s @
          [\<lparr>d_id = next_uuid s,
            d_title = documentTitle firstChunk,
            d_sourceUrl = (if sourceUrl firstChunk \<noteq> [] then Some (sourceUrl firstChunk)
                           else None)\<rparr>],
       next_uuid := Suc (next_uuid s)\<rparr>"

definition existingChunks :: "json list database \<Rightarrow> nat \<Rightarrow> tsv_row \<Rightarrow> json list text_chunk list" where
  "existingChunks s documentId chunk =
     filter (\<lambda>c. c_documentId c = documentId \<and> c_content c = chunkContent chunk) (textChunks s)"

definition insert_chunk :: "json list database \<Rightarrow> nat \<Rightarrow> tsv_row \<Rightarrow> json list database" where
  "insert_chunk s documentId chunk =
     s\<lparr>textChunks := textChunks s @
          [\<lparr>c_id = next_uuid s,
            c_documentId = documentId,
            c_sectionTitle = (if sectionTitle chunk \<noteq> [] then Some (sectionTitle chunk)
                              else None),
            c_content = chunkContent chunk,
            c_embedding = embedding chunk\<rparr>],
       next_uuid := Suc (next_uuid s)\<rparr>"

text \<open>The inner loop: one row of a group.\<close>

definition import_chunk :: "nat \<Rightarrow> import_state \<Rightarrow> tsv_row \<Rightarrow> import_state" where
  "import_chunk documentId st chunk =
     (if existingChunks (db st) documentId chunk \<noteq> []
      then st\<lparr>chunksSkipped := chunksSkipped st + 1\<rparr>
      else st\<lparr>db := insert_chunk (db st) documentId chunk,
              chunksCreated := chunksCreated st + 1\<rparr>)"

text \<open>
  The outer loop: one group. A group is created with its first row, so \<open>chunks[0]\<close> exists
  (lemma \<open>documentGroups_nonempty\<close>); the first equation is never used.
\<close>

fun import_group :: "import_state \<Rightarrow> tsv_row list \<Rightarrow> import_state" where
  "import_group st [] = st"
| "import_group st (firstChunk # rest) =
     (case existingDocs (db st) firstChunk of
        d # _ \<Rightarrow> foldl (import_chunk (d_id d)) st (firstChunk # rest)
      | [] \<Rightarrow>
          foldl (import_chunk (next_uuid (db st)))
            (st\<lparr>db := insert_document (db st) firstChunk,
                documentsCreated := documentsCreated st + 1\<rparr>)
            (firstChunk # rest))"

record import_summary =
  s_documentsCreated :: nat
  s_chunksCreated :: nat
  s_chunksSkipped :: nat
  s_totalRows :: nat

definition import_rows :: "json list database \<Rightarrow> tsv_row list \<Rightarrow> json list database \<times> import_summary" where
  "import_rows s rows =
     (let st = foldl import_group
                 \<lparr>db = s, documentsCreated = 0, chunksCreated = 0, chunksSkipped = 0\<rparr>
                 (map snd (documentGroups rows))
      in (db st,
          \<lparr>s_documentsCreated = documentsCreated st,
           s_chunksCreated = chunksCreated st,
           s_chunksSkipped = chunksSkipped st,
           s_totalRows = length rows\<rparr>))"

text \<open>The whole function: parse the file, then load the rows. A parse error ends the run
  before the store is touched.\<close>

definition importChunksFromTSV ::
  "(jsstring \<Rightarrow> json option) \<Rightarrow> json list database \<Rightarrow> jsstring
     \<Rightarrow> parse_error + (json list database \<times> import_summary)" where
  "importChunksFromTSV jparse s content =
     (case parseTSV jparse content of
        Inl e \<Rightarrow> Inl e
      | Inr rows \<Rightarrow> Inr (import_rows s rows))"

text \<open>
  The command-line script (import.ts) reads the flag \<open>--update\<close> into \<open>updateMode\<close> and
  calls \<open>importChunksFromTSV(filepath, { updateExisting: updateMode })\<close>. The function
  declares one parameter, \<open>filepath\<close>: the second argument is not read.
\<close>

definition import_script ::
  "bool \<Rightarrow> (jsstring \<Rightarrow> json option) \<Rightarrow> json list database \<Rightarrow> jsstring
     \<Rightarrow> parse_error + (json list database \<times> import_summary)" where
  "import_script updateMode jparse s content = importChunksFromTSV jparse s content"

section \<open>Descriptions used in the statements\<close>

text \<open>
  The grouping the repair pass computes, told without the loop: over the trimmed, non-blank
  lines, a row is its first line and every line that follows it with fewer tab-separated
  fields than the header, up to the next line with at least that many.
\<close>

definition short_line :: "nat \<Rightarrow> jsstring \<Rightarrow> bool" where
  "short_line n l \<longleftrightarrow> length (split_on TAB l) < n"

function group_lines :: "nat \<Rightarrow> jsstring list \<Rightarrow> jsstring list list" where
  "group_lines n [] = []"
| "group_lines n (l # ls) =
     (l # takeWhile (short_line n) ls) # group_lines n (dropWhile (short_line n) ls)"
  by pat_completeness auto
termination
  by (relation "measure (\<lambda>(n, ls). length ls)")
     (auto simp: le_imp_less_Suc length_dropWhile_le)

text \<open>What the loop has produced once the last row is pushed.\<close>

definition finish :: "repair_state \<Rightarrow> jsstring list" where
  "finish st =
     (if currentRow st \<noteq> [] then repairedRows st @ [currentRow st] else repairedRows st)"

text \<open>Sample files.\<close>

definition tsv_header :: jsstring where
  "tsv_header = join [TAB] [ascii ''document_title'', ascii ''source_url'',
     ascii ''section_title'', ascii ''chunk_content'', ascii ''embedding'']"

definition complete_line :: jsstring where
  "complete_line = join [TAB] [ascii ''A'', ascii ''u'', ascii ''s'', ascii ''one'', ascii ''[1]'']"

definition broken_line :: jsstring where
  "broken_line = join [TAB] [ascii ''B'', ascii ''v'', ascii ''t'', ascii ''two'']"

definition replacement_line :: jsstring where
  "replacement_line =
     join [TAB] [ascii ''A'', ascii ''u'', ascii ''s'', ascii ''caf'' @ [0xFFFD], ascii ''[1]'']"

text \<open>Similarity is one minus the cosine distance; a result row is a chunk joined with a
  document.\<close>

definition similarity :: "('e \<Rightarrow> real list \<Rightarrow> real) \<Rightarrow> real list \<Rightarrow> 'e text_chunk \<Rightarrow> real" where
  "similarity distance q c = 1 - distance (c_embedding c) q"

definition result_of :: "('e \<Rightarrow> real list \<Rightarrow> real) \<Rightarrow> real list \<Rightarrow> 'e text_chunk \<Rightarrow> document \<Rightarrow> SearchResult" where
  "result_of distance q c d =
     \<lparr>r_id = c_id c, r_content = c_content c, r_sectionTitle = c_sectionTitle c,
      r_similarity = similarity distance q c, r_documentId = c_documentId c,
      r_documentTitle = d_title d, r_sourceUrl = d_sourceUrl d\<rparr>"

text \<open>
  A sample store and a cosine distance over the reals (one minus the normalised dot
  product), for vectors that differ from zero in their first two components only.
\<close>

definition dot :: "real list \<Rightarrow> real list \<Rightarrow> real" where
  "dot a b = sum_list (map2 (*) a b)"

definition cosine_distance :: "real list \<Rightarrow> real list \<Rightarrow> real" where
  "cosine_distance a b = 1 - dot a b / sqrt (dot a a * dot b b)"

definition plane_vector :: "real \<Rightarrow> real \<Rightarrow> real list" where
  "plane_vector x y = x # y # replicate 1534 0"

definition sample_store :: "real list database" where
  "sample_store =
     \<lparr>documents =
        [\<lparr>d_id = 0, d_title = ascii ''Handbook'', d_sourceUrl = None\<rparr>,
         \<lparr>d_id = 1, d_title = ascii ''FAQ'', d_sourceUrl = Some (ascii ''https://example.org/faq'')\<rparr>],
      textChunks =
        [\<lparr>c_id = 2, c_documentId = 0, c_sectionTitle = None, c_content = ascii ''hours'',
          c_embedding = plane_vector 3 4\<rparr>,
         \<lparr>c_id = 3, c_documentId = 0, c_sectionTitle = Some (ascii ''Fees''), c_content = ascii ''fees'',
          c_embedding = plane_vector 0 1\<rparr>,
         \<lparr>c_id = 4, c_documentId = 1, c_sectionTitle = None, c_content = ascii ''enrol'',
          c_embedding = plane_vector 1 0\<rparr>],
      next_uuid = 5\<rparr>"





text \<open>
  Two embedding texts, a JSON array of 1536 zeros and a JSON array of 1536 strings
  \<open>"x"\<close>, and a stand-in for \<open>JSON.parse\<close> in the samples: it agrees with
  \<open>JSON.parse\<close> on these two texts and on \<open>[1]\<close>, the only texts it is applied to; its
  answer \<open>None\<close> on every other text is not a statement about \<open>JSON.parse\<close>.
\<close>

definition number_array_text :: jsstring where
  "number_array_text = ascii ''['' @ join (ascii '','') (replicate 1536 (ascii ''0'')) @ ascii '']''"

definition string_array_text :: jsstring where
  "string_array_text =
     ascii ''['' @ join (ascii '','') (replicate 1536 ([0x22] @ ascii ''x'' @ [0x22])) @ ascii '']''"

definition sample_JSON_parse :: "jsstring \<Rightarrow> json option" where
  "sample_JSON_parse text =
     (if text = number_array_text then Some (JArray (replicate 1536 (JNumber 0)))
      else if text = string_array_text then Some (JArray (replicate 1536 (JString (ascii ''x''))))
      else if text = ascii ''[1]'' then Some (JArray [JNumber 1])
      else None)"

definition extra_fields_line :: jsstring where
  "extra_fields_line = join [TAB] [ascii ''Handbook'', [], ascii ''Intro'', ascii '' Welcome '',
     number_array_text, ascii ''left'', ascii ''over'']"

definition string_embedding_line :: jsstring where
  "string_embedding_line = join [TAB] [ascii ''Handbook'', [], ascii ''Intro'', ascii ''Welcome'',
     string_array_text]"

text \<open>
  The identity of a document is its title with its stored source URL, \<open>None\<close> being SQL's
  \<open>NULL\<close>; the identity a row asks for has \<open>NULL\<close> in place of an empty source URL.
\<close>

definition doc_identity :: "document \<Rightarrow> jsstring \<times> jsstring option" where
  "doc_identity d = (d_title d, d_sourceUrl d)"

definition row_identity :: "tsv_row \<Rightarrow> jsstring \<times> jsstring option" where
  "row_identity row =
     (documentTitle row, if sourceUrl row \<noteq> [] then Some (sourceUrl row) else None)"

text \<open>A store has grown into another when documents and chunks were only added, at the end.\<close>

definition grows :: "json list database \<Rightarrow> json list database \<Rightarrow> bool" where
  "grows s s' \<longleftrightarrow>
     (\<exists>ds. documents s' = documents s @ ds) \<and> (\<exists>cs. textChunks s' = textChunks s @ cs)"

text \<open>A group is settled in a store when the lookup finds its document and, under the
  first document found, a chunk for the content of each of its rows.\<close>

definition settled :: "json list database \<Rightarrow> tsv_row list \<Rightarrow> bool" where
  "settled s chunks =
     (case chunks of
        [] \<Rightarrow> True
      | firstChunk # _ \<Rightarrow>
          (case existingDocs s firstChunk of
             [] \<Rightarrow> False
           | d # _ \<Rightarrow> list_all (\<lambda>chunk. existingChunks s (d_id d) chunk \<noteq> []) chunks))"

text \<open>The stores ingestion reaches from the empty database, run after run.\<close>

inductive reachable :: "json list database \<Rightarrow> bool" where
  start: "reachable empty_database"
| run: "reachable s \<Longrightarrow> reachable (fst (import_rows s rows))"

text \<open>What \<open>documentGroups\<close> computes: one group per key that occurs, holding all the rows of
  that key in file order.\<close>

definition grouped :: "tsv_row list \<Rightarrow> (jsstring \<times> tsv_row list) list \<Rightarrow> bool" where
  "grouped rows g \<longleftrightarrow>
     distinct (map fst g) \<and> fst ` set g = row_key ` set rows \<and>
     (\<forall>k rs. (k, rs) \<in> set g \<longrightarrow> rs = filter (\<lambda>r. row_key r = k) rows) \<and>
     sum_list (map (length \<circ> snd) g) = length rows"

text \<open>The documents a run has added so far: new identities, each created once.\<close>

definition fresh_docs :: "json list database \<Rightarrow> import_state \<Rightarrow> bool" where
  "fresh_docs s0 st \<longleftrightarrow>
     (\<exists>new. documents (db st) = documents s0 @ new
        \<and> distinct (map doc_identity new)
        \<and> (\<forall>d\<in>set new. doc_identity d \<notin> doc_identity ` set (documents s0))
        \<and> (\<forall>d\<in>set new. d_sourceUrl d \<noteq> Some [])
        \<and> documentsCreated st = length new)"

text \<open>
  A sample file of three rows, two documents, the rows of the first document apart; the
  rows it parses to; the store its first import leaves; and a file whose one row repeats
  the first row with another section title.
\<close>

definition zeros :: "json list" where
  "zeros = replicate 1536 (JNumber 0)"

definition faq_url :: jsstring where
  "faq_url = ascii ''https://example.org/faq''"

definition sample_rows :: "tsv_row list" where
  "sample_rows =
     [\<lparr>documentTitle = ascii ''Handbook'', sourceUrl = [], sectionTitle = ascii ''Intro'',
        chunkContent = ascii ''Welcome'', embedding = zeros\<rparr>,
      \<lparr>documentTitle = ascii ''FAQ'', sourceUrl = faq_url, sectionTitle = [],
        chunkContent = ascii ''Ask us'', embedding = zeros\<rparr>,
      \<lparr>documentTitle = ascii ''Handbook'', sourceUrl = [], sectionTitle = ascii ''Hours'',
        chunkContent = ascii ''Open 9-5'', embedding = zeros\<rparr>]"

definition sample_file :: jsstring where
  "sample_file = join [NL]
     [tsv_header,
      join [TAB] [ascii ''Handbook'', [], ascii ''Intro'', ascii ''Welcome'', number_array_text],
      join [TAB] [ascii ''FAQ'', faq_url, [], ascii ''Ask us'', number_array_text],
      join [TAB] [ascii ''Handbook'', [], ascii ''Hours'', ascii ''Open 9-5'', number_array_text]]"

definition sample_loaded :: "json list database" where
  "sample_loaded =
     \<lparr>documents =
        [\<lparr>d_id = 0, d_title = ascii ''Handbook'', d_sourceUrl = None\<rparr>,
         \<lparr>d_id = 3, d_title = ascii ''FAQ'', d_sourceUrl = Some faq_url\<rparr>],
      textChunks =
        [\<lparr>c_id = 1, c_documentId = 0, c_sectionTitle = Some (ascii ''Intro''),
          c_content = ascii ''Welcome'', c_embedding = zeros\<rparr>,
         \<lparr>c_id = 2, c_documentId = 0, c_sectionTitle = Some (ascii ''Hours''),
          c_content = ascii ''Open 9-5'', c_embedding = zeros\<rparr>,
         \<lparr>c_id = 4, c_documentId = 3, c_sectionTitle = None,
          c_content = ascii ''Ask us'', c_embedding = zeros\<rparr>],
      next_uuid = 5\<rparr>"

definition changed_file :: jsstring where
  "changed_file = join [NL]
     [tsv_header,
      join [TAB] [ascii ''Handbook'', [], ascii ''Changed'', ascii ''Welcome'', number_array_text]]"

section \<open>The repair pass: merging\<close>

text \<open>The header line exists: \<open>lines[headerIndex]\<close> is read within the array.\<close>

lemma find_header_bound: "find_header ls i = 0 \<or> find_header ls i < i + length ls"
proof (induction ls arbitrary: i)
  case Nil
  show ?case by simp
next
  case (Cons l ls)
  from Cons [of "Suc i"] show ?case by auto
qed

lemma headerIndex_in_range:
  "headerIndex (split_on NL content) < length (split_on NL content)"
proof -
  have "split_on NL content \<noteq> []"
    by (induction content) (auto split: list.splits)
  then show ?thesis
    using find_header_bound [of "split_on NL content" 0] by (auto simp: headerIndex_def)
qed

lemma join_merge_head: "join s (x # y # ys) = join s ((x @ s @ y) # ys)"
  by (cases ys) simp_all

lemma repair_fold_open:
  "currentRow st \<noteq> [] \<Longrightarrow>
   finish (foldl (repair_step n) st ls) =
     repairedRows st @
     join [SPACE] (currentRow st #
        takeWhile (short_line n) (filter (\<lambda>l. l \<noteq> []) (map trim ls))) #
     map (join [SPACE])
       (group_lines n (dropWhile (short_line n) (filter (\<lambda>l. l \<noteq> []) (map trim ls))))"
proof (induction ls arbitrary: st)
  case Nil
  then show ?case by (simp add: finish_def)
next
  case (Cons raw ls)
  show ?case
  proof (cases "trim raw = []")
    case True
    then have "repair_step n st raw = st" by (simp add: repair_step_def)
    with Cons True show ?thesis by simp
  next
    case nonblank: False
    show ?thesis
    proof (cases "short_line n (trim raw)")
      case True
      let ?st = "st\<lparr>currentRow := currentRow st @ [SPACE] @ trim raw,
                     rowsMerged := rowsMerged st + 1\<rparr>"
      have step: "repair_step n st raw = ?st"
        using nonblank True Cons.prems by (simp add: repair_step_def short_line_def Let_def)
      have "currentRow ?st \<noteq> []" by simp
      from Cons.IH [OF this] show ?thesis
        using nonblank True by (simp add: step join_merge_head del: join.simps)
    next
      case False
      let ?st = "st\<lparr>repairedRows := repairedRows st @ [currentRow st],
                     currentRow := trim raw\<rparr>"
      have step: "repair_step n st raw = ?st"
        using nonblank False Cons.prems by (simp add: repair_step_def short_line_def Let_def)
      have "currentRow ?st \<noteq> []" using nonblank by simp
      from Cons.IH [OF this] show ?thesis
        using nonblank False by (simp add: step)
    qed
  qed
qed

lemma repair_fold_start:
  "currentRow st = [] \<Longrightarrow>
   finish (foldl (repair_step n) st ls) =
     repairedRows st @
     map (join [SPACE]) (group_lines n (filter (\<lambda>l. l \<noteq> []) (map trim ls)))"
proof (induction ls arbitrary: st)
  case Nil
  then show ?case by (simp add: finish_def)
next
  case (Cons raw ls)
  show ?case
  proof (cases "trim raw = []")
    case True
    then have "repair_step n st raw = st" by (simp add: repair_step_def)
    with Cons True show ?thesis by simp
  next
    case False
    let ?st = "st\<lparr>repairedRows := repairedRows st, currentRow := trim raw\<rparr>"
    have step: "repair_step n st raw = ?st"
      using False Cons.prems by (simp add: repair_step_def Let_def)
    have "currentRow ?st \<noteq> []" using False by simp
    from repair_fold_open [OF this, of n ls] show ?thesis
      using False by (simp add: step)
  qed
qed

text \<open>
  C8, as the script has it. The rows the repair pass hands on are the groups of
  \<open>group_lines\<close>, each joined with single spaces: a trimmed non-blank line with fewer
  fields than the header is appended to the row before it, whatever the number of fields
  that row has reached, and a line with at least the header's number of fields (or the very
  first line) starts a row of its own.
\<close>

theorem repair_rows_groups:
  "repairedRows (repair_rows n ls) =
     map (join [SPACE]) (group_lines n (filter (\<lambda>l. l \<noteq> []) (map trim ls)))"
  using repair_fold_start [of "\<lparr>repairedRows = [], currentRow = [], rowsMerged = 0\<rparr>" n ls]
  by (auto simp add: repair_rows_def finish_def Let_def split: if_splits)

text \<open>
  The grouping theorem of C8 at a file of three data lines: the broken line joins the
  complete line before it, the next complete line stands alone.
\<close>

theorem repair_rows_groups_witness:
  "repairedRows (repair_rows 5 [complete_line, broken_line, complete_line])
     = [complete_line @ [SPACE] @ broken_line, complete_line]"
proof -
  have "map (join [SPACE])
          (group_lines 5 (filter (\<lambda>l. l \<noteq> [])
             (map trim [complete_line, broken_line, complete_line])))
        = [complete_line @ [SPACE] @ broken_line, complete_line]"
    by code_simp
  with repair_rows_groups [of 5 "[complete_line, broken_line, complete_line]"]
  show ?thesis by (simp only:)
qed

text \<open>
  C8, as the claim has it, fails: the first data line below already has the header's five
  fields, the four-field line after it is appended all the same, and the one row written
  has eight fields.
\<close>

theorem repair_appends_to_complete_row:
  "length (split_on TAB complete_line) = length (split_on TAB tsv_header)
   \<and> outputContent (clean_encoding (join [NL] [tsv_header, complete_line, broken_line]))
       = join [NL] [tsv_header, complete_line @ [SPACE] @ broken_line]
   \<and> length (split_on TAB (complete_line @ [SPACE] @ broken_line)) = 8"
  by code_simp

section \<open>The repair pass: cleaning\<close>

text \<open>
  C9 at a row whose content holds the replacement character U+FFFD: the file is written
  back as it was read, the replacement character still in it. The pattern the script
  removes is \<open>replacement_pattern\<close>, three other code units.
\<close>

theorem replacement_character_survives:
  "outputContent (clean_encoding (join [NL] [tsv_header, replacement_line]))
     = join [NL] [tsv_header, replacement_line]
   \<and> 0xFFFD \<in> set (outputContent (clean_encoding (join [NL] [tsv_header, replacement_line])))"
  by code_simp

section \<open>Similarity search\<close>

lemma filter_unique_id:
  "distinct (map d_id ds) \<Longrightarrow> d \<in> set ds \<Longrightarrow> filter (\<lambda>d'. d_id d = d_id d') ds = [d]"
  by (induction ds) (auto simp: image_iff filter_empty_conv)

lemma innerJoin_fst:
  assumes pk: "distinct (map d_id ds)"
    and fk: "\<forall>c\<in>set cs. \<exists>d\<in>set ds. d_id d = c_documentId c"
  shows "map fst (innerJoin cs ds) = cs"
  using fk
proof (induction cs)
  case Nil
  then show ?case by (simp add: innerJoin_def)
next
  case (Cons c cs)
  then obtain d where d: "d \<in> set ds" "d_id d = c_documentId c" by auto
  have "filter (\<lambda>d'. c_documentId c = d_id d') ds = [d]"
    using filter_unique_id [OF pk d(1)] d(2) by simp
  moreover have "map fst (innerJoin cs ds) = cs" using Cons by simp
  ultimately show ?case by (simp add: innerJoin_def)
qed

lemma innerJoin_owner:
  "(c, d) \<in> set (innerJoin cs ds) \<Longrightarrow> c \<in> set cs \<and> d \<in> set ds \<and> d_id d = c_documentId c"
  by (auto simp: innerJoin_def)

lemma map_fst_filter_chunk:
  "map fst (filter (\<lambda>(c, d). P c) xs) = filter P (map fst xs)"
  by (induction xs) auto

lemma sorted_distance_descending:
  "sorted (map (\<lambda>(c, d). distance (c_embedding c) q) xs) \<Longrightarrow>
   sorted_wrt (\<lambda>a b. a \<ge> b) (map (similarity distance q) (map fst xs))"
  by (induction xs) (auto simp: similarity_def)

text \<open>
  C4. On a store that satisfies the schema (document ids are a primary key, every chunk's
  \<open>document_id\<close> references a document), for a query of 1536 components, every limit \<open>n\<close>
  and threshold \<open>t\<close>: the search returns rows; they are the first \<open>n\<close> of \<open>ranked\<close>, which
  holds exactly the stored chunks of similarity at least \<open>t\<close> (as a multiset) in descending
  order of similarity; every row carries its chunk's fields, the similarity, and the title
  and source URL of the document that owns the chunk. The limit defaults to 5. The query
  is read with the meaning SQL gives it, the distance operator being any function into the
  reals.
\<close>

theorem search_ranked:
  assumes dim: "length q = 1536"
    and pk: "distinct (map d_id (documents s))"
    and fk: "\<forall>c\<in>set (textChunks s). \<exists>d\<in>set (documents s). d_id d = c_documentId c"
  shows "\<exists>ranked rows.
           searchSimilarChunks distance s q n t = Inr rows
         \<and> mset ranked = mset (filter (\<lambda>c. similarity distance q c \<ge> t) (textChunks s))
         \<and> sorted_wrt (\<lambda>a b. a \<ge> b) (map (similarity distance q) ranked)
         \<and> list_all2 (\<lambda>r c. \<exists>d\<in>set (documents s). d_id d = c_documentId c
                               \<and> r = result_of distance q c d) rows (take n ranked)
         \<and> searchSimilarChunks_default distance s q = searchSimilarChunks distance s q 5 (7 / 10)"
proof -
  let ?joined = "innerJoin (textChunks s) (documents s)"
  let ?kept = "filter (\<lambda>(c, d). 1 - distance (c_embedding c) q \<ge> t) ?joined"
  let ?ordered = "sort_key (\<lambda>(c, d). distance (c_embedding c) q) ?kept"
  let ?row = "\<lambda>(c, d). result_of distance q c d"
  let ?rows = "map ?row (take n ?ordered)"
  let ?ranked = "map fst ?ordered"
  have res: "searchSimilarChunks distance s q n t = Inr ?rows"
    using dim by (simp add: searchSimilarChunks_def result_of_def similarity_def Let_def)
  have "mset ?ranked = mset (map fst ?kept)"
    by simp
  also have "map fst ?kept = filter (\<lambda>c. similarity distance q c \<ge> t) (textChunks s)"
    using map_fst_filter_chunk [of "\<lambda>c. 1 - distance (c_embedding c) q \<ge> t" ?joined]
      innerJoin_fst [OF pk fk]
    by (simp add: similarity_def)
  finally have ms: "mset ?ranked = mset (filter (\<lambda>c. similarity distance q c \<ge> t) (textChunks s))" .
  have srt: "sorted_wrt (\<lambda>a b. a \<ge> b) (map (similarity distance q) ?ranked)"
    by (rule sorted_distance_descending) (rule sorted_sort_key)
  have own: "\<forall>x\<in>set (take n ?ordered). \<exists>d\<in>set (documents s). d_id d = c_documentId (fst x)
                \<and> ?row x = result_of distance q (fst x) d"
  proof
    fix x assume "x \<in> set (take n ?ordered)"
    then have "x \<in> set ?ordered" by (rule in_set_takeD)
    then have "(fst x, snd x) \<in> set ?joined" by simp
    then have "snd x \<in> set (documents s) \<and> d_id (snd x) = c_documentId (fst x)"
      using innerJoin_owner by blast
    then show "\<exists>d\<in>set (documents s). d_id d = c_documentId (fst x)
                 \<and> ?row x = result_of distance q (fst x) d"
      by (intro bexI [of _ "snd x"]) (simp_all add: case_prod_beta)
  qed
  have la: "list_all2 (\<lambda>r c. \<exists>d\<in>set (documents s). d_id d = c_documentId c
                               \<and> r = result_of distance q c d) ?rows (take n ?ranked)"
    using own by (simp add: list_all2_map1 list_all2_map2 take_map list_all2_same)
  show ?thesis
    using res ms srt la by (intro exI [of _ ?ranked] exI [of _ ?rows]) (simp add: searchSimilarChunks_default_def)
qed

lemma length_plane_vector: "length (plane_vector x y) = 1536"
  by (simp add: plane_vector_def)

lemma dot_plane: "dot (plane_vector a b) (plane_vector c d) = a * c + b * d"
  by (simp add: dot_def plane_vector_def sum_list_replicate)

lemma sqrt_25: "sqrt 25 = 5"
  by (rule real_sqrt_unique) simp_all

lemma cosine_distance_samples:
  "cosine_distance (plane_vector 3 4) (plane_vector 1 0) = 2 / 5"
  "cosine_distance (plane_vector 0 1) (plane_vector 1 0) = 1"
  "cosine_distance (plane_vector 1 0) (plane_vector 1 0) = 0"
  by (simp_all add: cosine_distance_def dot_plane sqrt_25)

lemma search_sample:
  "searchSimilarChunks cosine_distance sample_store (plane_vector 1 0) 2 (1 / 2) =
     Inr [\<lparr>r_id = 4, r_content = ascii ''enrol'', r_sectionTitle = None, r_similarity = 1,
           r_documentId = 1, r_documentTitle = ascii ''FAQ'',
           r_sourceUrl = Some (ascii ''https://example.org/faq'')\<rparr>,
          \<lparr>r_id = 2, r_content = ascii ''hours'', r_sectionTitle = None, r_similarity = 3 / 5,
           r_documentId = 0, r_documentTitle = ascii ''Handbook'', r_sourceUrl = None\<rparr>]"
  by (simp add: searchSimilarChunks_def sample_store_def innerJoin_def length_plane_vector
        cosine_distance_samples Let_def)

text \<open>The hypotheses of C4 hold of the sample store, with the conclusion it then gives.\<close>

theorem search_ranked_witness:
  "length (plane_vector 1 0) = 1536
   \<and> distinct (map d_id (documents sample_store))
   \<and> list_all (\<lambda>c. list_ex (\<lambda>d. d_id d = c_documentId c) (documents sample_store))
         (textChunks sample_store)
   \<and> (\<exists>ranked rows.
           searchSimilarChunks cosine_distance sample_store (plane_vector 1 0) 2 (1 / 2) = Inr rows
         \<and> mset ranked = mset (filter (\<lambda>c. similarity cosine_distance (plane_vector 1 0) c \<ge> 1 / 2)
                                  (textChunks sample_store))
         \<and> sorted_wrt (\<lambda>a b. a \<ge> b) (map (similarity cosine_distance (plane_vector 1 0)) ranked)
         \<and> list_all2 (\<lambda>r c. \<exists>d\<in>set (documents sample_store). d_id d = c_documentId c
                               \<and> r = result_of cosine_distance (plane_vector 1 0) c d)
              rows (take 2 ranked)
         \<and> searchSimilarChunks_default cosine_distance sample_store (plane_vector 1 0)
             = searchSimilarChunks cosine_distance sample_store (plane_vector 1 0) 5 (7 / 10))"
proof -
  have dim: "length (plane_vector 1 0) = 1536" by (rule length_plane_vector)
  have pk: "distinct (map d_id (documents sample_store))" by (simp add: sample_store_def)
  have fk: "\<forall>c\<in>set (textChunks sample_store). \<exists>d\<in>set (documents sample_store). d_id d = c_documentId c"
    by (simp add: sample_store_def)
  have fk': "list_all (\<lambda>c. list_ex (\<lambda>d. d_id d = c_documentId c) (documents sample_store))
         (textChunks sample_store)"
    by (simp add: sample_store_def)
  from search_ranked [OF dim pk fk, of cosine_distance 2 "1 / 2"] dim pk fk'
  show ?thesis by blast
qed

text \<open>
  C5. The search fails, with the dimension error, exactly when the query does not have 1536
  components; a query of 1536 components that no stored chunk matches with similarity at
  least \<open>t\<close> gets the empty list, not an error.
\<close>

theorem search_dimension_error:
  "(searchSimilarChunks distance s q n t = Inl (InvalidEmbeddingDimensions (length q))
      \<longleftrightarrow> length q \<noteq> 1536)
   \<and> (isl (searchSimilarChunks distance s q n t) \<longleftrightarrow> length q \<noteq> 1536)
   \<and> (length q = 1536 \<and> (\<forall>c\<in>set (textChunks s). 1 - distance (c_embedding c) q < t)
        \<longrightarrow> searchSimilarChunks distance s q n t = Inr [])"
proof -
  have "(\<forall>c\<in>set (textChunks s). 1 - distance (c_embedding c) q < t) \<Longrightarrow>
    filter (\<lambda>(c, d). 1 - distance (c_embedding c) q \<ge> t) (innerJoin (textChunks s) (documents s)) = []"
    by (auto simp: filter_empty_conv dest!: innerJoin_owner)
  then show ?thesis
    by (auto simp: searchSimilarChunks_def Let_def)
qed


text \<open>C5 on the sample store: a query of two components, and a query opposite to every
  stored vector.\<close>

theorem search_dimension_error_witness:
  "searchSimilarChunks cosine_distance sample_store [1, 0] 5 (3 / 10) = Inl (InvalidEmbeddingDimensions 2)
   \<and> searchSimilarChunks cosine_distance sample_store (plane_vector (-1) 0) 5 (3 / 10) = Inr []"
proof -
  have far: "\<forall>c\<in>set (textChunks sample_store).
      1 - cosine_distance (c_embedding c) (plane_vector (-1) 0) < 3 / 10"
    by (simp add: sample_store_def cosine_distance_def dot_plane sqrt_25)
  have dim: "length (plane_vector (-1) 0) = 1536" by (rule length_plane_vector)
  from search_dimension_error [of cosine_distance sample_store "[1, 0]" 5 "3 / 10"]
    search_dimension_error [of cosine_distance sample_store "plane_vector (-1) 0" 5 "3 / 10"] far dim
  show ?thesis by simp
qed

section \<open>The embedding adapter\<close>





section \<open>The parser\<close>

lemma split_on_nonempty: "split_on c s \<noteq> []"
  by (induction s) (auto split: list.splits)

lemma split_on_no_sep: "c \<notin> set s \<Longrightarrow> split_on c s = [s]"
  by (induction s) auto

lemma split_on_append: "c \<notin> set f \<Longrightarrow> split_on c (f @ c # rest) = f # split_on c rest"
  by (induction f) auto

lemma split_on_join:
  "fs \<noteq> [] \<Longrightarrow> \<forall>f\<in>set fs. c \<notin> set f \<Longrightarrow> split_on c (join [c] fs) = fs"
  by (induction "[c]" fs rule: join.induct) (auto simp: split_on_no_sep split_on_append)

lemma split_on_fields: "f \<in> set (split_on c s) \<Longrightarrow> c \<notin> set f"
proof (induction s arbitrary: f)
  case Nil
  then show ?case by simp
next
  case (Cons x s)
  then show ?case
    using split_on_nonempty [of c s]
    by (cases "split_on c s") (auto split: if_splits)
qed

lemma set_join: "set (join sep xs) \<subseteq> set sep \<union> \<Union> (set ` set xs)"
  by (induction sep xs rule: join.induct) auto

text \<open>
  C10. A line that splits on the tab into more than five fields, the first, fourth and
  fifth non-empty, the fifth parsing as a JSON array of 1536 elements (of numbers, or of
  anything else), is accepted: the row holds the trimmed first four fields and the parsed
  array, and it is the row of the line cut after its fifth field, so the fields after the
  fifth have no effect at all.
\<close>

theorem parse_row_ignores_extra_fields:
  assumes fields: "split_on TAB line = t # u # s # c # e # extra"
    and more: "extra \<noteq> []"
    and required: "t \<noteq> []" "c \<noteq> []" "e \<noteq> []"
    and array: "jparse e = Some (JArray xs)" "length xs = 1536"
  shows "parse_row jparse line =
           Inr \<lparr>documentTitle = trim t, sourceUrl = trim u, sectionTitle = trim s,
                chunkContent = trim c, embedding = xs\<rparr>
         \<and> parse_row jparse (join [TAB] [t, u, s, c, e]) = parse_row jparse line"
proof -
  have row: "parse_row jparse line =
           Inr \<lparr>documentTitle = trim t, sourceUrl = trim u, sectionTitle = trim s,
                chunkContent = trim c, embedding = xs\<rparr>"
    using fields required array by (simp add: parse_row_def field_def Let_def)
  have "\<forall>f\<in>set [t, u, s, c, e]. TAB \<notin> set f"
    using split_on_fields [of _ TAB line] fields by simp
  then have "split_on TAB (join [TAB] [t, u, s, c, e]) = [t, u, s, c, e]"
    by (intro split_on_join) simp_all
  then have "parse_row jparse (join [TAB] [t, u, s, c, e]) =
           Inr \<lparr>documentTitle = trim t, sourceUrl = trim u, sectionTitle = trim s,
                chunkContent = trim c, embedding = xs\<rparr>"
    using required array by (simp add: parse_row_def field_def Let_def)
  with row show ?thesis by simp
qed


lemma trim_eq_Nil: "trim s = [] \<longleftrightarrow> (\<forall>c\<in>set s. is_js_whitespace c)"
proof
  assume "trim s = []"
  then have "\<forall>c\<in>set (dropWhile is_js_whitespace s). is_js_whitespace c"
    by (simp add: trim_def)
  then have "dropWhile is_js_whitespace s = []"
    using hd_dropWhile [of is_js_whitespace s] by (metis list.set_sel(1))
  then show "\<forall>c\<in>set s. is_js_whitespace c" by simp
next
  assume "\<forall>c\<in>set s. is_js_whitespace c"
  then show "trim s = []" by (auto simp: trim_def dest: set_dropWhileD)
qed

lemma dataLines_join:
  assumes header: "NL \<notin> set h" "startsWith h (ascii ''document_title'')"
    and rows: "\<forall>l\<in>set ls. NL \<notin> set l \<and> trim l \<noteq> [] \<and> \<not> startsWith l (ascii ''#'')
                 \<and> \<not> startsWith l (ascii ''document_title'')"
  shows "dataLines (join [NL] (h # ls)) = ls"
proof -
  have "split_on NL (join [NL] (h # ls)) = h # ls"
    using header rows by (intro split_on_join) auto
  moreover have "filter (\<lambda>line. \<not> startsWith line (ascii ''#'')
                        \<and> \<not> startsWith line (ascii ''document_title''))
          (filter (\<lambda>line. trim line \<noteq> []) ls) = ls"
    using rows by (simp add: filter_id_conv)
  ultimately show ?thesis using header by (simp add: dataLines_def Let_def)
qed

lemma array_text_units:
  "set number_array_text \<subseteq> {0x5B, 0x2C, 0x30, 0x5D}"
  "set string_array_text \<subseteq> {0x5B, 0x2C, 0x22, 0x78, 0x5D}"
  using set_join [of "ascii '',''" "replicate 1536 (ascii ''0'')"]
    set_join [of "ascii '',''" "replicate 1536 ([0x22] @ ascii ''x'' @ [0x22])"]
  by (auto simp: number_array_text_def string_array_text_def ascii_def)

lemma array_text_no_separator:
  "TAB \<notin> set number_array_text" "NL \<notin> set number_array_text"
  "TAB \<notin> set string_array_text" "NL \<notin> set string_array_text"
  using array_text_units by (auto simp: TAB_def NL_def)

lemma join_Cons_Cons: "join sep ((a # x) # xs) = a # join sep (x # xs)"
  by (cases xs) simp_all

lemma hd_join_replicate: "0 < n \<Longrightarrow> hd (join sep (replicate n (a # x))) = a"
  by (cases n) (simp_all add: join_Cons_Cons)

lemma join_replicate_nonempty: "0 < n \<Longrightarrow> join sep (replicate n (a # x)) \<noteq> []"
  by (cases n) (simp_all add: join_Cons_Cons)

lemma array_text_second:
  "hd (tl number_array_text) = 0x30" "hd (tl string_array_text) = 0x22"
  by (simp_all add: number_array_text_def string_array_text_def ascii_def hd_join_replicate
        join_replicate_nonempty hd_append)

lemma array_text_distinct:
  "number_array_text \<noteq> string_array_text"
  "string_array_text \<noteq> number_array_text"
  "number_array_text \<noteq> []" "string_array_text \<noteq> []"
  "string_array_text \<noteq> ascii ''[1]''" "number_array_text \<noteq> ascii ''[1]''"
  using array_text_second
  by (auto simp: ascii_def) (simp_all add: number_array_text_def string_array_text_def ascii_def)

lemma sample_JSON_parse_texts:
  "sample_JSON_parse number_array_text = Some (JArray (replicate 1536 (JNumber 0)))"
  "sample_JSON_parse string_array_text = Some (JArray (replicate 1536 (JString (ascii ''x''))))"
  by (simp_all add: sample_JSON_parse_def array_text_distinct)


lemma extra_fields_line_split:
  "split_on TAB extra_fields_line =
     [ascii ''Handbook'', [], ascii ''Intro'', ascii '' Welcome '', number_array_text,
      ascii ''left'', ascii ''over'']"
  unfolding extra_fields_line_def
  by (intro split_on_join) (simp_all add: array_text_no_separator, simp_all add: ascii_def TAB_def)

lemma trim_sample_fields:
  "trim (ascii ''Handbook'') = ascii ''Handbook''" "trim [] = []"
  "trim (ascii ''Intro'') = ascii ''Intro''" "trim (ascii '' Welcome '') = ascii ''Welcome''"
  "trim (ascii ''Welcome'') = ascii ''Welcome''"
  by code_simp+

lemma sample_fields_nonempty:
  "ascii ''Handbook'' \<noteq> []" "ascii ''Welcome'' \<noteq> []" "ascii '' Welcome '' \<noteq> []"
  by (simp_all add: ascii_def)

text \<open>C10 at a line of seven fields.\<close>

theorem parse_row_ignores_extra_fields_witness:
  "parse_row sample_JSON_parse extra_fields_line =
     Inr \<lparr>documentTitle = ascii ''Handbook'', sourceUrl = [], sectionTitle = ascii ''Intro'',
          chunkContent = ascii ''Welcome'', embedding = replicate 1536 (JNumber 0)\<rparr>
   \<and> parse_row sample_JSON_parse
       (join [TAB] [ascii ''Handbook'', [], ascii ''Intro'', ascii '' Welcome '', number_array_text])
     = parse_row sample_JSON_parse extra_fields_line"
proof -
  have more: "[ascii ''left'', ascii ''over''] \<noteq> []" by simp
  have required: "ascii ''Handbook'' \<noteq> []" "ascii '' Welcome '' \<noteq> []" "number_array_text \<noteq> []"
    by (simp_all add: ascii_def array_text_distinct)
  have len: "length (replicate 1536 (JNumber 0)) = 1536" by simp
  from parse_row_ignores_extra_fields [where jparse = sample_JSON_parse,
      OF extra_fields_line_split more required sample_JSON_parse_texts(1) len]
  show ?thesis by (simp add: trim_sample_fields)
qed

lemma string_embedding_line_split:
  "split_on TAB string_embedding_line =
     [ascii ''Handbook'', [], ascii ''Intro'', ascii ''Welcome'', string_array_text]"
  unfolding string_embedding_line_def
  by (intro split_on_join) (simp_all add: array_text_no_separator, simp_all add: ascii_def TAB_def)

lemma string_embedding_line_data:
  "NL \<notin> set string_embedding_line" "trim string_embedding_line \<noteq> []"
  "\<not> startsWith string_embedding_line (ascii ''#'')"
  "\<not> startsWith string_embedding_line (ascii ''document_title'')"
proof -
  show "NL \<notin> set string_embedding_line"
    using array_text_no_separator(4)
    by (simp add: string_embedding_line_def) (simp add: ascii_def NL_def TAB_def)
  have "0x48 \<in> set string_embedding_line" "\<not> is_js_whitespace 0x48"
    by (simp_all add: string_embedding_line_def ascii_def is_js_whitespace_def)
  then show "trim string_embedding_line \<noteq> []" by (auto simp: trim_eq_Nil)
  show "\<not> startsWith string_embedding_line (ascii ''#'')"
    "\<not> startsWith string_embedding_line (ascii ''document_title'')"
    by (simp_all add: string_embedding_line_def startsWith_def ascii_def)
qed

lemma tsv_header_data: "NL \<notin> set tsv_header" "startsWith tsv_header (ascii ''document_title'')"
  by code_simp+

text \<open>
  C6 at a file whose one data row has, as its embedding, a JSON array of 1536 strings: the
  parser returns the row, the strings in its \<open>embedding\<close>. Only \<open>Array.isArray\<close> and the
  length are tested; the message of the error thrown otherwise asks for an array of 1536
  numbers.
\<close>

theorem parseTSV_accepts_string_embedding:
  "parseTSV sample_JSON_parse (join [NL] [tsv_header, string_embedding_line]) =
     Inr [\<lparr>documentTitle = ascii ''Handbook'', sourceUrl = [], sectionTitle = ascii ''Intro'',
            chunkContent = ascii ''Welcome'',
            embedding = replicate 1536 (JString (ascii ''x''))\<rparr>]"
proof -
  have "dataLines (join [NL] [tsv_header, string_embedding_line]) = [string_embedding_line]"
    by (intro dataLines_join) (simp_all add: tsv_header_data string_embedding_line_data)
  moreover have "parse_row sample_JSON_parse string_embedding_line =
     Inr \<lparr>documentTitle = ascii ''Handbook'', sourceUrl = [], sectionTitle = ascii ''Intro'',
          chunkContent = ascii ''Welcome'', embedding = replicate 1536 (JString (ascii ''x''))\<rparr>"
    using sample_fields_nonempty
    by (simp add: parse_row_def Let_def string_embedding_line_split field_def
          sample_JSON_parse_texts array_text_distinct trim_sample_fields)
  ultimately show ?thesis by (simp add: parseTSV_def)
qed

section \<open>Ingestion: grouping\<close>

lemma push_row_keys:
  "map fst (push_row k r g) = (if k \<in> fst ` set g then map fst g else map fst g @ [k])"
  by (induction k r g rule: push_row.induct) (auto simp: image_iff)

lemma push_row_lookup:
  "map_of (push_row k r g) k' =
     (if k' = k then Some ((case map_of g k of None \<Rightarrow> [] | Some rs \<Rightarrow> rs) @ [r])
      else map_of g k')"
  by (induction k r g rule: push_row.induct) auto

lemma push_row_total:
  "sum_list (map (length \<circ> snd) (push_row k r g)) = Suc (sum_list (map (length \<circ> snd) g))"
  by (induction k r g rule: push_row.induct) simp_all

lemma push_row_distinct: "distinct (map fst g) \<Longrightarrow> distinct (map fst (push_row k r g))"
  by (simp add: push_row_keys)

lemma grouped_push:
  assumes "grouped rows g"
  shows "grouped (rows @ [r]) (push_row (row_key r) r g)"
proof -
  let ?k = "row_key r"
  let ?g = "push_row ?k r g"
  from assms have d: "distinct (map fst g)" and keys: "fst ` set g = row_key ` set rows"
    and parts: "\<And>k rs. (k, rs) \<in> set g \<Longrightarrow> rs = filter (\<lambda>r. row_key r = k) rows"
    and total: "sum_list (map (length \<circ> snd) g) = length rows"
    unfolding grouped_def by blast+
  have d': "distinct (map fst ?g)" using d by (rule push_row_distinct)
  have "set (map fst ?g) = insert ?k (fst ` set g)"
    by (auto simp: push_row_keys)
  then have keys': "fst ` set ?g = row_key ` set (rows @ [r])"
    using keys by simp
  have look: "rs = filter (\<lambda>r. row_key r = k) rows" if "map_of g k = Some rs" for k rs
    using that parts [of k rs] by (simp add: map_of_SomeD)
  have none: "filter (\<lambda>r. row_key r = k) rows = []" if "map_of g k = None" for k
  proof -
    from that have "k \<notin> fst ` set g" by (simp add: map_of_eq_None_iff)
    with keys have "k \<notin> row_key ` set rows" by simp
    then show ?thesis by (auto simp: filter_empty_conv)
  qed
  have parts': "rs = filter (\<lambda>r. row_key r = k) (rows @ [r])" if "(k, rs) \<in> set ?g" for k rs
  proof -
    from that d' have m: "map_of ?g k = Some rs" by simp
    show ?thesis
    proof (cases "k = ?k")
      case True
      with m have rs: "rs = (case map_of g ?k of None \<Rightarrow> [] | Some rs \<Rightarrow> rs) @ [r]"
        by (simp add: push_row_lookup)
      show ?thesis
      proof (cases "map_of g ?k")
        case None
        with rs none [of ?k] True show ?thesis by simp
      next
        case (Some rs0)
        with rs look [of ?k rs0] True show ?thesis by simp
      qed
    next
      case False
      with m have "map_of g k = Some rs" by (simp add: push_row_lookup)
      with look [of k rs] False show ?thesis by simp
    qed
  qed
  have "sum_list (map (length \<circ> snd) ?g) = length (rows @ [r])"
    using total by (simp add: push_row_total)
  with d' keys' parts' show ?thesis unfolding grouped_def by blast
qed

lemma grouped_fold:
  "grouped rows0 g \<Longrightarrow>
   grouped (rows0 @ rows) (foldl (\<lambda>groups row. push_row (row_key row) row groups) g rows)"
proof (induction rows arbitrary: rows0 g)
  case Nil
  then show ?case by simp
next
  case (Cons r rows)
  from Cons.IH [OF grouped_push [OF Cons.prems, of r]] show ?case by simp
qed

lemma documentGroups_grouped: "grouped rows (documentGroups rows)"
  using grouped_fold [of "[]" "[]" rows] by (simp add: grouped_def documentGroups_def)

lemma documentGroups_nonempty: "(k, rs) \<in> set (documentGroups rows) \<Longrightarrow> rs \<noteq> []"
proof -
  assume a: "(k, rs) \<in> set (documentGroups rows)"
  from documentGroups_grouped [of rows]
  have p: "\<And>k rs. (k, rs) \<in> set (documentGroups rows) \<Longrightarrow> rs = filter (\<lambda>r. row_key r = k) rows"
    and q: "fst ` set (documentGroups rows) = row_key ` set rows"
    unfolding grouped_def by blast+
  from a have "k \<in> fst ` set (documentGroups rows)" by force
  with q have "k \<in> row_key ` set rows" by simp
  moreover from a p have "rs = filter (\<lambda>r. row_key r = k) rows" by simp
  ultimately show ?thesis by (auto simp: filter_empty_conv)
qed

lemma documentGroups_total:
  "sum_list (map length (map snd (documentGroups rows))) = length rows"
  using documentGroups_grouped [of rows] by (simp add: grouped_def comp_def)

lemma documentGroups_count:
  "length (documentGroups rows) = card (row_key ` set rows)"
proof -
  from documentGroups_grouped [of rows]
  have d: "distinct (map fst (documentGroups rows))"
    and q: "fst ` set (documentGroups rows) = row_key ` set rows"
    unfolding grouped_def by blast+
  from distinct_card [OF d] q show ?thesis by simp
qed

section \<open>Ingestion: the store only grows\<close>

lemma import_chunk_documents: "documents (db (import_chunk i st r)) = documents (db st)"
  by (simp add: import_chunk_def insert_chunk_def)

lemma import_chunk_created: "documentsCreated (import_chunk i st r) = documentsCreated st"
  by (simp add: import_chunk_def)

lemma import_chunks_documents:
  "documents (db (foldl (import_chunk i) st rs)) = documents (db st)"
  by (induction rs arbitrary: st) (simp_all add: import_chunk_documents)

lemma import_chunks_created:
  "documentsCreated (foldl (import_chunk i) st rs) = documentsCreated st"
  by (induction rs arbitrary: st) (simp_all add: import_chunk_created)

lemma grows_refl: "grows s s"
  by (simp add: grows_def)

lemma grows_trans: "grows s s' \<Longrightarrow> grows s' s'' \<Longrightarrow> grows s s''"
  unfolding grows_def by (metis append.assoc)

lemma import_chunk_grows: "grows (db st) (db (import_chunk i st r))"
  by (simp add: import_chunk_def insert_chunk_def grows_def)

lemma import_chunks_grows: "grows (db st) (db (foldl (import_chunk i) st rs))"
proof (induction rs arbitrary: st)
  case Nil
  show ?case by (simp add: grows_refl)
next
  case (Cons r rs)
  from grows_trans [OF import_chunk_grows Cons.IH] show ?case by simp
qed

lemma insert_document_grows: "grows s (insert_document s fc)"
  by (simp add: insert_document_def grows_def)

lemma import_group_grows: "grows (db st) (db (import_group st g))"
proof (cases g)
  case Nil
  then show ?thesis by (simp add: grows_refl)
next
  case g: (Cons fc rest)
  show ?thesis
  proof (cases "existingDocs (db st) fc")
    case Nil
    let ?st = "st\<lparr>db := insert_document (db st) fc, documentsCreated := documentsCreated st + 1\<rparr>"
    have "grows (db st) (db ?st)" by (simp add: insert_document_grows)
    from grows_trans [OF this import_chunks_grows]
    have "grows (db st) (db (foldl (import_chunk (next_uuid (db st))) ?st g))" .
    moreover have "import_group st g = foldl (import_chunk (next_uuid (db st))) ?st g"
      using Nil g by (simp del: foldl_Cons)
    ultimately show ?thesis by (simp only:)
  next
    case (Cons d ds)
    then have "import_group st g = foldl (import_chunk (d_id d)) st g"
      using g by (simp del: foldl_Cons)
    with import_chunks_grows [of st "d_id d" g] show ?thesis by (simp only:)
  qed
qed

lemma import_groups_grows: "grows (db st) (db (foldl import_group st gs))"
proof (induction gs arbitrary: st)
  case Nil
  show ?case by (simp add: grows_refl)
next
  case (Cons g gs)
  from grows_trans [OF import_group_grows Cons.IH] show ?case by simp
qed

lemma existingChunks_grows:
  "grows s s' \<Longrightarrow> existingChunks s i r \<noteq> [] \<Longrightarrow> existingChunks s' i r \<noteq> []"
  by (auto simp: grows_def existingChunks_def)

lemma existingDocs_grows:
  assumes "grows s s'" and "existingDocs s fc = d # ds"
  shows "\<exists>ds'. existingDocs s' fc = d # ds'"
proof -
  from assms(1) obtain more where "documents s' = documents s @ more"
    unfolding grows_def by blast
  then have "existingDocs s' fc = existingDocs s fc @ existingDocs (s\<lparr>documents := more\<rparr>) fc"
    by (simp add: existingDocs_def)
  with assms(2) show ?thesis by simp
qed

lemma existingDocs_cong: "documents s = documents s' \<Longrightarrow> existingDocs s fc = existingDocs s' fc"
  by (simp add: existingDocs_def)

lemma existingDocs_insert:
  "existingDocs s fc = [] \<Longrightarrow>
   existingDocs (insert_document s fc) fc =
     [\<lparr>d_id = next_uuid s, d_title = documentTitle fc,
       d_sourceUrl = (if sourceUrl fc \<noteq> [] then Some (sourceUrl fc) else None)\<rparr>]"
  by (simp add: existingDocs_def insert_document_def)

lemma import_chunk_has: "existingChunks (db (import_chunk i st r)) i r \<noteq> []"
  by (simp add: import_chunk_def insert_chunk_def existingChunks_def)

lemma import_chunks_have:
  "list_all (\<lambda>r. existingChunks (db (foldl (import_chunk i) st rs)) i r \<noteq> []) rs"
proof (induction rs arbitrary: st)
  case Nil
  show ?case by simp
next
  case (Cons r rs)
  have "existingChunks (db (foldl (import_chunk i) (import_chunk i st r) rs)) i r \<noteq> []"
    using existingChunks_grows [OF import_chunks_grows import_chunk_has] .
  with Cons.IH [of "import_chunk i st r"] show ?case by simp
qed

lemma import_chunks_skip:
  "list_all (\<lambda>r. existingChunks (db st) i r \<noteq> []) rs \<Longrightarrow>
   foldl (import_chunk i) st rs = st\<lparr>chunksSkipped := chunksSkipped st + length rs\<rparr>"
proof (induction rs arbitrary: st)
  case Nil
  show ?case by simp
next
  case (Cons r rs)
  let ?st = "st\<lparr>chunksSkipped := chunksSkipped st + 1\<rparr>"
  from Cons.prems have step: "import_chunk i st r = ?st" by (simp add: import_chunk_def)
  from Cons.prems have "list_all (\<lambda>r. existingChunks (db ?st) i r \<noteq> []) rs" by simp
  from Cons.IH [OF this] show ?case by (simp add: step)
qed

section \<open>Ingestion: running twice\<close>

lemma settledI:
  "existingDocs s fc = d # ds \<Longrightarrow>
   list_all (\<lambda>chunk. existingChunks s (d_id d) chunk \<noteq> []) (fc # rest) \<Longrightarrow>
   settled s (fc # rest)"
  by (simp add: settled_def)

lemma settledD:
  "settled s (fc # rest) \<Longrightarrow>
   \<exists>d ds. existingDocs s fc = d # ds \<and>
     list_all (\<lambda>chunk. existingChunks s (d_id d) chunk \<noteq> []) (fc # rest)"
  by (cases "existingDocs s fc") (simp_all add: settled_def)

lemma import_group_settles_Cons: "settled (db (import_group st (fc # rest))) (fc # rest)"
proof (cases "existingDocs (db st) fc")
  case Nil
  let ?st = "st\<lparr>db := insert_document (db st) fc, documentsCreated := documentsCreated st + 1\<rparr>"
  let ?i = "next_uuid (db st)"
  let ?end = "foldl (import_chunk ?i) ?st (fc # rest)"
  let ?d = "\<lparr>d_id = next_uuid (db st), d_title = documentTitle fc,
       d_sourceUrl = (if sourceUrl fc \<noteq> [] then Some (sourceUrl fc) else None)\<rparr>"
  have run: "import_group st (fc # rest) = ?end"
    using Nil by (simp del: foldl_Cons)
  have "documents (db ?end) = documents (db ?st)"
    by (rule import_chunks_documents)
  then have "existingDocs (db ?end) fc = existingDocs (db ?st) fc"
    by (rule existingDocs_cong)
  also have "\<dots> = [?d]"
    using existingDocs_insert [OF Nil] by simp
  finally have d: "existingDocs (db ?end) fc = ?d # []" .
  have "list_all (\<lambda>chunk. existingChunks (db ?end) ?i chunk \<noteq> []) (fc # rest)"
    by (rule import_chunks_have)
  then have "list_all (\<lambda>chunk. existingChunks (db ?end) (d_id ?d) chunk \<noteq> []) (fc # rest)"
    by (simp only: document.simps)
  from settledI [OF d this] show ?thesis by (simp only: run)
next
  case (Cons d ds)
  let ?end = "foldl (import_chunk (d_id d)) st (fc # rest)"
  have run: "import_group st (fc # rest) = ?end"
    using Cons by (simp del: foldl_Cons)
  have "documents (db ?end) = documents (db st)"
    by (rule import_chunks_documents)
  then have "existingDocs (db ?end) fc = existingDocs (db st) fc"
    by (rule existingDocs_cong)
  with Cons have d: "existingDocs (db ?end) fc = d # ds" by (simp only:)
  have "list_all (\<lambda>chunk. existingChunks (db ?end) (d_id d) chunk \<noteq> []) (fc # rest)"
    by (rule import_chunks_have)
  from settledI [OF d this] show ?thesis by (simp only: run)
qed

lemma import_group_settles: "settled (db (import_group st g)) g"
  by (cases g) (simp add: settled_def, simp only: import_group_settles_Cons)

lemma settled_grows:
  assumes "settled s g" and "grows s s'"
  shows "settled s' g"
proof (cases g)
  case Nil
  then show ?thesis by (simp add: settled_def)
next
  case g: (Cons fc rest)
  with assms(1) settledD [of s fc rest] obtain d ds where d: "existingDocs s fc = d # ds"
    and has: "list_all (\<lambda>chunk. existingChunks s (d_id d) chunk \<noteq> []) g"
    by blast
  from existingDocs_grows [OF assms(2) d] obtain ds' where d': "existingDocs s' fc = d # ds'"
    by blast
  from has have "list_all (\<lambda>chunk. existingChunks s' (d_id d) chunk \<noteq> []) g"
    using existingChunks_grows [OF assms(2)] by (auto simp: list_all_iff)
  with d' g show ?thesis by (simp add: settled_def)
qed

lemma import_group_noop:
  assumes "settled (db st) g"
  shows "import_group st g = st\<lparr>chunksSkipped := chunksSkipped st + length g\<rparr>"
proof (cases g)
  case Nil
  then show ?thesis by simp
next
  case g: (Cons fc rest)
  with assms settledD [of "db st" fc rest] obtain d ds where d: "existingDocs (db st) fc = d # ds"
    and has: "list_all (\<lambda>chunk. existingChunks (db st) (d_id d) chunk \<noteq> []) g"
    by blast
  from d g have "import_group st g = foldl (import_chunk (d_id d)) st g"
    by (simp del: foldl_Cons)
  with import_chunks_skip [OF has] show ?thesis by simp
qed

lemma import_groups_settle:
  "list_all (settled (db (foldl import_group st gs))) gs"
proof (induction gs arbitrary: st)
  case Nil
  show ?case by simp
next
  case (Cons g gs)
  have "settled (db (foldl import_group (import_group st g) gs)) g"
    using settled_grows [OF import_group_settles import_groups_grows] .
  with Cons.IH [of "import_group st g"] show ?case by simp
qed

lemma import_groups_noop:
  "list_all (settled (db st)) gs \<Longrightarrow>
   foldl import_group st gs = st\<lparr>chunksSkipped := chunksSkipped st + sum_list (map length gs)\<rparr>"
proof (induction gs arbitrary: st)
  case Nil
  show ?case by simp
next
  case (Cons g gs)
  let ?st = "st\<lparr>chunksSkipped := chunksSkipped st + length g\<rparr>"
  from Cons.prems have step: "import_group st g = ?st" by (simp add: import_group_noop)
  from Cons.prems have "list_all (settled (db ?st)) gs" by simp
  from Cons.IH [OF this] show ?case by (simp add: step)
qed

lemma import_rows_again:
  assumes "import_rows s rows = (s1, summary1)"
  shows "import_rows s1 rows =
           (s1, \<lparr>s_documentsCreated = 0, s_chunksCreated = 0,
                 s_chunksSkipped = length rows, s_totalRows = length rows\<rparr>)"
proof -
  let ?gs = "map snd (documentGroups rows)"
  let ?init = "\<lambda>s. \<lparr>db = s, documentsCreated = 0, chunksCreated = 0, chunksSkipped = 0\<rparr>"
  from assms have s1: "s1 = db (foldl import_group (?init s) ?gs)"
    by (simp add: import_rows_def Let_def)
  have "list_all (settled s1) ?gs"
    unfolding s1 by (rule import_groups_settle)
  then have "list_all (settled (db (?init s1))) ?gs" by simp
  from import_groups_noop [OF this]
  show ?thesis
    using documentGroups_total [of rows] by (simp add: import_rows_def Let_def comp_def)
qed

text \<open>
  C1. If a run of \<open>importChunksFromTSV\<close> on a file succeeds (the file parses; the script
  has insert-only mode only) and leaves the store \<open>s1\<close>, a second run on the same file
  from \<open>s1\<close> creates no document and no chunk, counts every row as skipped, and returns
  \<open>s1\<close> itself: documents, chunks and id counter unchanged.
\<close>

theorem import_idempotent:
  assumes "importChunksFromTSV jparse s content = Inr (s1, summary1)"
  shows "importChunksFromTSV jparse s1 content =
           Inr (s1, \<lparr>s_documentsCreated = 0, s_chunksCreated = 0,
                      s_chunksSkipped = s_totalRows summary1,
                      s_totalRows = s_totalRows summary1\<rparr>)"
proof (cases "parseTSV jparse content")
  case (Inl e)
  with assms show ?thesis by (simp add: importChunksFromTSV_def)
next
  case (Inr rows)
  with assms have first: "import_rows s rows = (s1, summary1)"
    by (simp add: importChunksFromTSV_def)
  then have "summary1 = snd (import_rows s rows)" by simp
  then have "s_totalRows summary1 = length rows"
    by (simp add: import_rows_def Let_def)
  with import_rows_again [OF first] Inr show ?thesis
    by (simp add: importChunksFromTSV_def)
qed

section \<open>Ingestion: document identity\<close>

lemma existingDocs_set:
  "set (existingDocs s fc) = {d \<in> set (documents s). doc_identity d = row_identity fc}"
  by (auto simp: existingDocs_def doc_identity_def row_identity_def)

lemma row_identity_not_empty: "snd (row_identity fc) \<noteq> Some []"
  by (simp add: row_identity_def)

lemma existingDocs_empty:
  "existingDocs s fc = [] \<Longrightarrow> row_identity fc \<notin> doc_identity ` set (documents s)"
proof
  assume e: "existingDocs s fc = []" and "row_identity fc \<in> doc_identity ` set (documents s)"
  then obtain d where "d \<in> set (documents s)" "doc_identity d = row_identity fc" by auto
  then have "d \<in> set (existingDocs s fc)" by (simp add: existingDocs_set)
  with e show False by simp
qed

lemma import_group_fresh:
  assumes "fresh_docs s0 st"
  shows "fresh_docs s0 (import_group st g)
         \<and> documentsCreated (import_group st g) \<le> Suc (documentsCreated st)"
proof (cases g)
  case Nil
  with assms show ?thesis by simp
next
  case g: (Cons fc rest)
  from assms obtain new where new: "documents (db st) = documents s0 @ new"
    "distinct (map doc_identity new)"
    "\<forall>d\<in>set new. doc_identity d \<notin> doc_identity ` set (documents s0)"
    "\<forall>d\<in>set new. d_sourceUrl d \<noteq> Some []"
    "documentsCreated st = length new"
    unfolding fresh_docs_def by blast
  show ?thesis
  proof (cases "existingDocs (db st) fc")
    case Nil
    let ?d = "\<lparr>d_id = next_uuid (db st), d_title = documentTitle fc,
       d_sourceUrl = (if sourceUrl fc \<noteq> [] then Some (sourceUrl fc) else None)\<rparr>"
    let ?st = "st\<lparr>db := insert_document (db st) fc, documentsCreated := documentsCreated st + 1\<rparr>"
    let ?end = "foldl (import_chunk (next_uuid (db st))) ?st (fc # rest)"
    have run: "import_group st g = ?end"
      using Nil g by (simp del: foldl_Cons)
    have ident: "doc_identity ?d = row_identity fc"
      by (simp add: doc_identity_def row_identity_def)
    from existingDocs_empty [OF Nil] new(1)
    have notin: "row_identity fc \<notin> doc_identity ` set (documents s0)"
      "row_identity fc \<notin> doc_identity ` set new"
      by auto
    have "documents (db ?end) = documents (db ?st)" by (rule import_chunks_documents)
    also have "\<dots> = documents s0 @ (new @ [?d])"
      using new(1) by (simp add: insert_document_def)
    finally have docs: "documents (db ?end) = documents s0 @ (new @ [?d])" .
    have "documentsCreated ?end = documentsCreated ?st" by (rule import_chunks_created)
    then have cnt: "documentsCreated ?end = length (new @ [?d])"
      using new(5) by simp
    have d1: "distinct (map doc_identity (new @ [?d]))"
      using new(2) notin(2) ident by (simp add: image_iff)
    have d2: "\<forall>d\<in>set (new @ [?d]). doc_identity d \<notin> doc_identity ` set (documents s0)"
      using new(3) notin(1) ident by auto
    have d3: "\<forall>d\<in>set (new @ [?d]). d_sourceUrl d \<noteq> Some []"
      using new(4) by auto
    have "fresh_docs s0 ?end"
      unfolding fresh_docs_def using docs d1 d2 d3 cnt by blast
    moreover have "documentsCreated ?end \<le> Suc (documentsCreated st)"
      using cnt new(5) by simp
    ultimately show ?thesis by (simp only: run)
  next
    case (Cons d ds)
    let ?end = "foldl (import_chunk (d_id d)) st (fc # rest)"
    have run: "import_group st g = ?end"
      using Cons g by (simp del: foldl_Cons)
    have "documents (db ?end) = documents (db st)" by (rule import_chunks_documents)
    moreover have "documentsCreated ?end = documentsCreated st" by (rule import_chunks_created)
    ultimately have "fresh_docs s0 ?end \<and> documentsCreated ?end \<le> Suc (documentsCreated st)"
      using assms by (simp add: fresh_docs_def)
    then show ?thesis by (simp only: run)
  qed
qed

lemma import_groups_fresh:
  "fresh_docs s0 st \<Longrightarrow>
   fresh_docs s0 (foldl import_group st gs)
   \<and> documentsCreated (foldl import_group st gs) \<le> documentsCreated st + length gs"
proof (induction gs arbitrary: st)
  case Nil
  then show ?case by simp
next
  case (Cons g gs)
  from import_group_fresh [OF Cons.prems, of g]
  have f: "fresh_docs s0 (import_group st g)"
    and c: "documentsCreated (import_group st g) \<le> Suc (documentsCreated st)" by simp_all
  from Cons.IH [OF f] c show ?case by simp
qed

lemma import_rows_new_documents:
  assumes "import_rows s rows = (s', summary)"
  shows "(\<exists>new. documents s' = documents s @ new \<and> length new = s_documentsCreated summary
            \<and> distinct (map doc_identity new)
            \<and> (\<forall>d\<in>set new. doc_identity d \<notin> doc_identity ` set (documents s))
            \<and> (\<forall>d\<in>set new. d_sourceUrl d \<noteq> Some []))
         \<and> s_documentsCreated summary \<le> card (row_key ` set rows)"
proof -
  let ?init = "\<lparr>db = s, documentsCreated = 0, chunksCreated = 0, chunksSkipped = 0\<rparr>"
  let ?end = "foldl import_group ?init (map snd (documentGroups rows))"
  have "fresh_docs s ?init" by (simp add: fresh_docs_def)
  from import_groups_fresh [OF this, of "map snd (documentGroups rows)"]
  have f: "fresh_docs s ?end" and c: "documentsCreated ?end \<le> length (documentGroups rows)"
    by simp_all
  from assms have s': "s' = db ?end" and sm: "s_documentsCreated summary = documentsCreated ?end"
    by (auto simp: import_rows_def Let_def)
  from f obtain new where "documents (db ?end) = documents s @ new"
    "distinct (map doc_identity new)"
    "\<forall>d\<in>set new. doc_identity d \<notin> doc_identity ` set (documents s)"
    "\<forall>d\<in>set new. d_sourceUrl d \<noteq> Some []"
    "documentsCreated ?end = length new"
    unfolding fresh_docs_def by blast
  then have "\<exists>new. documents s' = documents s @ new \<and> length new = s_documentsCreated summary
            \<and> distinct (map doc_identity new)
            \<and> (\<forall>d\<in>set new. doc_identity d \<notin> doc_identity ` set (documents s))
            \<and> (\<forall>d\<in>set new. d_sourceUrl d \<noteq> Some [])"
    unfolding s' sm by (intro exI [of _ new]) simp
  moreover have "s_documentsCreated summary \<le> card (row_key ` set rows)"
    using c by (simp add: sm documentGroups_count)
  ultimately show ?thesis by blast
qed

lemma reachable_invariant:
  "reachable s \<Longrightarrow>
   distinct (map doc_identity (documents s)) \<and> (\<forall>d\<in>set (documents s). d_sourceUrl d \<noteq> Some [])"
proof (induction rule: reachable.induct)
  case start
  show ?case by (simp add: empty_database_def)
next
  case (run s rows)
  obtain s' summary where r: "import_rows s rows = (s', summary)" by (cases "import_rows s rows")
  from import_rows_new_documents [OF r] obtain new where
    new: "documents s' = documents s @ new" "distinct (map doc_identity new)"
      "\<forall>d\<in>set new. doc_identity d \<notin> doc_identity ` set (documents s)"
      "\<forall>d\<in>set new. d_sourceUrl d \<noteq> Some []"
    by blast
  have "distinct (map doc_identity (documents s'))"
    using run.IH new(1,2,3) by auto
  moreover have "\<forall>d\<in>set (documents s'). d_sourceUrl d \<noteq> Some []"
    using run.IH new(1,4) by auto
  ultimately show ?case by (simp add: r)
qed

section \<open>Ingestion: a sample run\<close>

lemma import_sample_rows:
  "import_rows empty_database sample_rows =
     (sample_loaded, \<lparr>s_documentsCreated = 2, s_chunksCreated = 3, s_chunksSkipped = 0,
                      s_totalRows = 3\<rparr>)"
  by (simp add: import_rows_def documentGroups_def sample_rows_def row_key_def
        empty_database_def sample_loaded_def existingDocs_def insert_document_def
        import_chunk_def existingChunks_def insert_chunk_def faq_url_def ascii_def BAR_def Let_def)


lemma parse_row_numbers:
  assumes "TAB \<notin> set t" "TAB \<notin> set u" "TAB \<notin> set s" "TAB \<notin> set c" "t \<noteq> []" "c \<noteq> []"
  shows "parse_row sample_JSON_parse (join [TAB] [t, u, s, c, number_array_text]) =
           Inr \<lparr>documentTitle = trim t, sourceUrl = trim u, sectionTitle = trim s,
                chunkContent = trim c, embedding = zeros\<rparr>"
proof -
  have "split_on TAB (join [TAB] [t, u, s, c, number_array_text]) = [t, u, s, c, number_array_text]"
    using assms by (intro split_on_join) (simp_all add: array_text_no_separator)
  then show ?thesis
    using assms
    by (simp add: parse_row_def Let_def field_def sample_JSON_parse_texts array_text_distinct
          zeros_def)
qed

lemma data_line:
  assumes "NL \<notin> set t" "NL \<notin> set u" "NL \<notin> set s" "NL \<notin> set c" "NL \<notin> set e"
    and "t \<noteq> []" "\<not> is_js_whitespace (hd t)" "hd t \<noteq> 0x23" "hd t \<noteq> 0x64"
  shows "NL \<notin> set (join [TAB] [t, u, s, c, e])
         \<and> trim (join [TAB] [t, u, s, c, e]) \<noteq> []
         \<and> \<not> startsWith (join [TAB] [t, u, s, c, e]) (ascii ''#'')
         \<and> \<not> startsWith (join [TAB] [t, u, s, c, e]) (ascii ''document_title'')"
proof -
  obtain x t' where t: "t = x # t'" using assms(6) by (cases t) auto
  have "NL \<notin> set (join [TAB] [t, u, s, c, e])"
    using assms(1-5) by (simp add: NL_def TAB_def)
  moreover have "trim (join [TAB] [t, u, s, c, e]) \<noteq> []"
    using assms(7) t by (auto simp: trim_eq_Nil)
  moreover have "\<not> startsWith (join [TAB] [t, u, s, c, e]) (ascii ''#'')"
    using assms(8) t by (simp add: startsWith_def ascii_def)
  moreover have "\<not> startsWith (join [TAB] [t, u, s, c, e]) (ascii ''document_title'')"
    using assms(9) t by (simp add: startsWith_def ascii_def)
  ultimately show ?thesis by blast
qed

lemma trim_more_samples:
  "trim (ascii ''FAQ'') = ascii ''FAQ''" "trim faq_url = faq_url"
  "trim (ascii ''Ask us'') = ascii ''Ask us''" "trim (ascii ''Hours'') = ascii ''Hours''"
  "trim (ascii ''Open 9-5'') = ascii ''Open 9-5''" "trim (ascii ''Changed'') = ascii ''Changed''"
  by code_simp+

lemma parseTSV_sample_file: "parseTSV sample_JSON_parse sample_file = Inr sample_rows"
proof -
  let ?l1 = "join [TAB] [ascii ''Handbook'', [], ascii ''Intro'', ascii ''Welcome'', number_array_text]"
  let ?l2 = "join [TAB] [ascii ''FAQ'', faq_url, [], ascii ''Ask us'', number_array_text]"
  let ?l3 = "join [TAB] [ascii ''Handbook'', [], ascii ''Hours'', ascii ''Open 9-5'', number_array_text]"
  have d1: "NL \<notin> set ?l1 \<and> trim ?l1 \<noteq> [] \<and> \<not> startsWith ?l1 (ascii ''#'')
            \<and> \<not> startsWith ?l1 (ascii ''document_title'')"
    by (rule data_line) (simp_all add: array_text_no_separator, simp_all add: ascii_def NL_def is_js_whitespace_def)
  have d2: "NL \<notin> set ?l2 \<and> trim ?l2 \<noteq> [] \<and> \<not> startsWith ?l2 (ascii ''#'')
            \<and> \<not> startsWith ?l2 (ascii ''document_title'')"
    by (rule data_line) (simp_all add: array_text_no_separator, simp_all add: ascii_def faq_url_def NL_def is_js_whitespace_def)
  have d3: "NL \<notin> set ?l3 \<and> trim ?l3 \<noteq> [] \<and> \<not> startsWith ?l3 (ascii ''#'')
            \<and> \<not> startsWith ?l3 (ascii ''document_title'')"
    by (rule data_line) (simp_all add: array_text_no_separator, simp_all add: ascii_def NL_def is_js_whitespace_def)
  have lines: "dataLines sample_file = [?l1, ?l2, ?l3]"
    unfolding sample_file_def
    using d1 d2 d3 by (intro dataLines_join) (simp_all add: tsv_header_data)
  have p1: "parse_row sample_JSON_parse ?l1 = Inr (sample_rows ! 0)"
    by (subst parse_row_numbers)
       (simp_all add: trim_sample_fields trim_more_samples sample_rows_def, simp_all add: ascii_def TAB_def)
  have p2: "parse_row sample_JSON_parse ?l2 = Inr (sample_rows ! 1)"
    by (subst parse_row_numbers)
       (simp_all add: trim_sample_fields trim_more_samples sample_rows_def, simp_all add: ascii_def faq_url_def TAB_def)
  have p3: "parse_row sample_JSON_parse ?l3 = Inr (sample_rows ! 2)"
    by (subst parse_row_numbers)
       (simp_all add: trim_sample_fields trim_more_samples sample_rows_def, simp_all add: ascii_def TAB_def)
  show ?thesis
    by (simp add: parseTSV_def lines p1 p2 p3 del: join.simps) (simp add: sample_rows_def)
qed

text \<open>C1 on the sample file: the first run creates two documents and three chunks, the
  second run nothing.\<close>

theorem import_idempotent_witness:
  "importChunksFromTSV sample_JSON_parse empty_database sample_file =
     Inr (sample_loaded, \<lparr>s_documentsCreated = 2, s_chunksCreated = 3, s_chunksSkipped = 0,
                           s_totalRows = 3\<rparr>)
   \<and> importChunksFromTSV sample_JSON_parse sample_loaded sample_file =
     Inr (sample_loaded, \<lparr>s_documentsCreated = 0, s_chunksCreated = 0, s_chunksSkipped = 3,
                           s_totalRows = 3\<rparr>)"
proof -
  have first: "importChunksFromTSV sample_JSON_parse empty_database sample_file =
     Inr (sample_loaded, \<lparr>s_documentsCreated = 2, s_chunksCreated = 3, s_chunksSkipped = 0,
                           s_totalRows = 3\<rparr>)"
    by (simp add: importChunksFromTSV_def parseTSV_sample_file import_sample_rows)
  from import_idempotent [OF first] first show ?thesis by simp
qed

lemma parseTSV_changed_file:
  "parseTSV sample_JSON_parse changed_file =
     Inr [\<lparr>documentTitle = ascii ''Handbook'', sourceUrl = [], sectionTitle = ascii ''Changed'',
            chunkContent = ascii ''Welcome'', embedding = zeros\<rparr>]"
proof -
  let ?l = "join [TAB] [ascii ''Handbook'', [], ascii ''Changed'', ascii ''Welcome'', number_array_text]"
  have d: "NL \<notin> set ?l \<and> trim ?l \<noteq> [] \<and> \<not> startsWith ?l (ascii ''#'')
            \<and> \<not> startsWith ?l (ascii ''document_title'')"
    by (rule data_line) (simp_all add: array_text_no_separator, simp_all add: ascii_def NL_def is_js_whitespace_def)
  have lines: "dataLines changed_file = [?l]"
    unfolding changed_file_def
    using d by (intro dataLines_join) (simp_all add: tsv_header_data)
  have p: "parse_row sample_JSON_parse ?l =
     Inr \<lparr>documentTitle = ascii ''Handbook'', sourceUrl = [], sectionTitle = ascii ''Changed'',
            chunkContent = ascii ''Welcome'', embedding = zeros\<rparr>"
    by (subst parse_row_numbers)
       (simp_all add: trim_sample_fields trim_more_samples, simp_all add: ascii_def TAB_def)
  show ?thesis
    by (simp add: parseTSV_def lines p del: join.simps)
qed

text \<open>
  C2 with the flag \<open>--update\<close> set, on the loaded sample store and a row that repeats a
  stored chunk's document and content with a new section title: the row is counted as
  skipped, nothing is updated, the stored chunk keeps its section title. The script has
  no update mode: \<open>importChunksFromTSV\<close> does not read the option it is called with.
\<close>

theorem update_flag_ignored:
  "import_script True sample_JSON_parse sample_loaded changed_file =
     Inr (sample_loaded, \<lparr>s_documentsCreated = 0, s_chunksCreated = 0, s_chunksSkipped = 1,
                           s_totalRows = 1\<rparr>)
   \<and> c_sectionTitle (textChunks sample_loaded ! 0) = Some (ascii ''Intro'')"
  by (simp add: import_script_def importChunksFromTSV_def parseTSV_changed_file)
     (simp add: import_rows_def documentGroups_def row_key_def sample_loaded_def
        existingDocs_def import_chunk_def existingChunks_def ascii_def BAR_def Let_def)

text \<open>
  C3. In every store that ingestion reaches from the empty database there is at most one
  document per identity (title, stored source URL), and no stored source URL is the empty
  string: an absent source is stored as \<open>NULL\<close>, and \<open>NULL\<close> and the empty string are
  different identities (\<open>None\<close> and \<open>Some []\<close>). The lookup finds exactly the documents of the
  identity the row asks for, which is never that of an empty-string source: a document
  stored with the empty string as its source is not taken for the one with no source. In one
  run, from any store, the documents created all have new, pairwise different identities,
  and there are no more of them than distinct keys in the input: rows are grouped by the
  value of their key, each group holding all rows of its key wherever they stand in the
  file.
\<close>

theorem document_identity_invariant:
  "(reachable s \<longrightarrow>
      distinct (map doc_identity (documents s)) \<and> (\<forall>d\<in>set (documents s). d_sourceUrl d \<noteq> Some []))
   \<and> set (existingDocs s firstChunk) =
        {d \<in> set (documents s). doc_identity d = row_identity firstChunk}
   \<and> snd (row_identity firstChunk) \<noteq> Some []
   \<and> (import_rows s rows = (s', summary) \<longrightarrow>
        (\<exists>new. documents s' = documents s @ new \<and> length new = s_documentsCreated summary
            \<and> distinct (map doc_identity new)
            \<and> (\<forall>d\<in>set new. doc_identity d \<notin> doc_identity ` set (documents s)))
        \<and> s_documentsCreated summary \<le> card (row_key ` set rows))
   \<and> distinct (map fst (documentGroups rows))
   \<and> (\<forall>k rs. (k, rs) \<in> set (documentGroups rows) \<longrightarrow> rs = filter (\<lambda>r. row_key r = k) rows)"
proof -
  have a: "reachable s \<longrightarrow>
      distinct (map doc_identity (documents s)) \<and> (\<forall>d\<in>set (documents s). d_sourceUrl d \<noteq> Some [])"
    using reachable_invariant by blast
  have b: "import_rows s rows = (s', summary) \<longrightarrow>
        (\<exists>new. documents s' = documents s @ new \<and> length new = s_documentsCreated summary
            \<and> distinct (map doc_identity new)
            \<and> (\<forall>d\<in>set new. doc_identity d \<notin> doc_identity ` set (documents s)))
        \<and> s_documentsCreated summary \<le> card (row_key ` set rows)"
    using import_rows_new_documents [of s rows s' summary] by blast
  from documentGroups_grouped [of rows]
  have c: "distinct (map fst (documentGroups rows))"
    and d: "\<forall>k rs. (k, rs) \<in> set (documentGroups rows) \<longrightarrow> rs = filter (\<lambda>r. row_key r = k) rows"
    unfolding grouped_def by blast+
  from a b c d existingDocs_set [of s firstChunk] row_identity_not_empty [of firstChunk]
  show ?thesis by blast
qed

text \<open>C3 on the sample run, whose two rows of the first document are not adjacent.\<close>

theorem document_identity_invariant_witness:
  "reachable sample_loaded
   \<and> import_rows empty_database sample_rows =
       (sample_loaded, \<lparr>s_documentsCreated = 2, s_chunksCreated = 3, s_chunksSkipped = 0,
                        s_totalRows = 3\<rparr>)
   \<and> distinct (map doc_identity (documents sample_loaded))
   \<and> list_all (\<lambda>d. d_sourceUrl d \<noteq> Some []) (documents sample_loaded)
   \<and> (\<exists>new. documents sample_loaded = documents (empty_database :: json list database) @ new
          \<and> length new = 2
          \<and> distinct (map doc_identity new))
   \<and> (2::nat) \<le> card (row_key ` set sample_rows)"
proof -
  let ?summary = "\<lparr>s_documentsCreated = 2, s_chunksCreated = 3, s_chunksSkipped = 0,
                   s_totalRows = 3\<rparr>"
  have reach: "reachable sample_loaded"
    using reachable.run [OF reachable.start, of sample_rows] by (simp add: import_sample_rows)
  note inv = document_identity_invariant [of sample_loaded "hd sample_rows" sample_rows
      sample_loaded ?summary, THEN conjunct1, rule_format, OF reach]
  note new = document_identity_invariant [of empty_database "hd sample_rows" sample_rows
      sample_loaded ?summary, THEN conjunct2, THEN conjunct2, THEN conjunct2, THEN conjunct1,
      rule_format, OF import_sample_rows]
  from new have "\<exists>new. documents sample_loaded = documents (empty_database :: json list database) @ new
      \<and> length new = s_documentsCreated ?summary
      \<and> distinct (map doc_identity new)
      \<and> (\<forall>d\<in>set new. doc_identity d \<notin> doc_identity ` set (documents (empty_database :: json list database)))"
    by (rule conjunct1)
  then obtain docs where docs: "documents sample_loaded = documents (empty_database :: json list database) @ docs
      \<and> length docs = s_documentsCreated ?summary
      \<and> distinct (map doc_identity docs)
      \<and> (\<forall>d\<in>set docs. doc_identity d \<notin> doc_identity ` set (documents (empty_database :: json list database)))" ..
  have "\<exists>new. documents sample_loaded = documents (empty_database :: json list database) @ new \<and> length new = 2
          \<and> distinct (map doc_identity new)"
    using docs by (intro exI [of _ docs]) simp
  moreover have "(2::nat) \<le> card (row_key ` set sample_rows)"
    using new [THEN conjunct2] by simp
  ultimately show ?thesis
    using reach import_sample_rows inv by (intro conjI) (simp_all add: list_all_iff)
qed

end
